theory Spec2Isabelle
  imports Main "HOL-Library.Char_ord" "HOL-Library.List_Lexorder" "HOL-Library.Sublist"
begin

section \<open>Exceptions and Python primitives\<close>

text \<open>
  The exceptions the shell can raise. \<open>PermissionError\<close> is the subclass of \<open>OSError\<close> that
  \<open>compute_matches\<close> catches; \<open>OSError\<close> stands for every other operating system error.
  \<open>SystemExit\<close> is what \<open>sys.exit\<close> raises.
\<close>

datatype exn = IndexError | TypeError | ValueError | PermissionError | OSError | SystemExit int

text \<open>
  The subscript \<open>xs[i]\<close> of a Python list: an index from \<open>-len(xs)\<close> to \<open>-1\<close> is taken
  from the end of the list, and an index outside \<open>-len(xs) .. len(xs) - 1\<close> raises.
\<close>

definition py_index :: "'a list \<Rightarrow> int \<Rightarrow> exn + 'a" where
  "py_index xs i =
     (if 0 \<le> i \<and> i < int (length xs) then Inr (xs ! nat i)
      else if - int (length xs) \<le> i \<and> i < 0 then Inr (xs ! nat (int (length xs) + i))
      else Inl IndexError)"

section \<open>RedirectionManager.parse\_redirection\<close>

text \<open>The two mode strings the program passes to \<open>open\<close>: \<open>"w"\<close> and \<open>"a"\<close>.\<close>

datatype fmode = ModeW | ModeA

text \<open>The five values \<open>parse_redirection\<close> returns as a tuple.\<close>

record redirection =
  cmd_parts :: "string list"
  stdout_file :: "string option"
  stdout_mode :: fmode
  stderr_file :: "string option"
  stderr_mode :: fmode

definition redirection_init :: redirection where
  "redirection_init =
     \<lparr>cmd_parts = [], stdout_file = None, stdout_mode = ModeW,
      stderr_file = None, stderr_mode = ModeW\<rparr>"

text \<open>
  The \<open>while i < len(parts)\<close> loop. An operator reads \<open>parts[i + 1]\<close>, which raises
  \<open>IndexError\<close> when the operator is the last word.
\<close>

function parse_loop :: "string list \<Rightarrow> nat \<Rightarrow> redirection \<Rightarrow> exn + redirection" where
  "parse_loop parts i st =
     (if i < length parts then
        (if parts ! i = ''>'' \<or> parts ! i = ''1>'' then
           (if i + 1 < length parts
            then parse_loop parts (i + 2)
                   (st\<lparr>stdout_file := Some (parts ! (i + 1)), stdout_mode := ModeW\<rparr>)
            else Inl IndexError)
         else if parts ! i = ''>>'' \<or> parts ! i = ''1>>'' then
           (if i + 1 < length parts
            then parse_loop parts (i + 2)
                   (st\<lparr>stdout_file := Some (parts ! (i + 1)), stdout_mode := ModeA\<rparr>)
            else Inl IndexError)
         else if parts ! i = ''2>'' then
           (if i + 1 < length parts
            then parse_loop parts (i + 2)
                   (st\<lparr>stderr_file := Some (parts ! (i + 1)), stderr_mode := ModeW\<rparr>)
            else Inl IndexError)
         else if parts ! i = ''2>>'' then
           (if i + 1 < length parts
            then parse_loop parts (i + 2)
                   (st\<lparr>stderr_file := Some (parts ! (i + 1)), stderr_mode := ModeA\<rparr>)
            else Inl IndexError)
         else parse_loop parts (i + 1) (st\<lparr>cmd_parts := cmd_parts st @ [parts ! i]\<rparr>))
      else Inr st)"
  by pat_completeness auto
termination
  by (relation "measure (\<lambda>(parts, i, st). length parts - i)") auto

declare parse_loop.simps [simp del]

definition parse_redirection :: "string list \<Rightarrow> exn + redirection" where
  "parse_redirection parts = parse_loop parts 0 redirection_init"

subsection \<open>The parser's contract, in the words of the specification\<close>

text \<open>
  A parsed line seen as a sequence of items: an ordinary word, or a redirection operator
  with the word after it. \<open>tokens_of\<close> gives the words an item stands for.
\<close>

datatype item = Word string | Redir string string

fun tokens_of :: "item \<Rightarrow> string list" where
  "tokens_of (Word w) = [w]"
| "tokens_of (Redir opr t) = [opr, t]"

definition is_stdout_op :: "string \<Rightarrow> bool" where
  "is_stdout_op w \<longleftrightarrow> w \<in> {''>'', ''1>'', ''>>'', ''1>>''}"

definition is_stderr_op :: "string \<Rightarrow> bool" where
  "is_stderr_op w \<longleftrightarrow> w \<in> {''2>'', ''2>>''}"

definition is_operator :: "string \<Rightarrow> bool" where
  "is_operator w \<longleftrightarrow> is_stdout_op w \<or> is_stderr_op w"

definition op_mode :: "string \<Rightarrow> fmode" where
  "op_mode w = (if w \<in> {''>>'', ''1>>'', ''2>>''} then ModeA else ModeW)"

fun wf_item :: "item \<Rightarrow> bool" where
  "wf_item (Word w) \<longleftrightarrow> \<not> is_operator w"
| "wf_item (Redir opr t) \<longleftrightarrow> is_operator opr"

fun word_of :: "item \<Rightarrow> string list" where
  "word_of (Word w) = [w]"
| "word_of (Redir opr t) = []"

fun redir_of :: "(string \<Rightarrow> bool) \<Rightarrow> item \<Rightarrow> (string \<times> string) list" where
  "redir_of p (Word w) = []"
| "redir_of p (Redir opr t) = (if p opr then [(opr, t)] else [])"

text \<open>The last operator of a stream and its target, if the stream has one.\<close>

definition last_redir :: "(string \<Rightarrow> bool) \<Rightarrow> item list \<Rightarrow> (string \<times> string) option" where
  "last_redir p its =
     (case rev (concat (map (redir_of p) its)) of [] \<Rightarrow> None | r # rs \<Rightarrow> Some r)"

definition spec_redirection :: "item list \<Rightarrow> redirection" where
  "spec_redirection its =
     \<lparr>cmd_parts = concat (map word_of its),
      stdout_file = map_option snd (last_redir is_stdout_op its),
      stdout_mode = (case last_redir is_stdout_op its of None \<Rightarrow> ModeW
                     | Some (opr, t) \<Rightarrow> op_mode opr),
      stderr_file = map_option snd (last_redir is_stderr_op its),
      stderr_mode = (case last_redir is_stderr_op its of None \<Rightarrow> ModeW
                     | Some (opr, t) \<Rightarrow> op_mode opr)\<rparr>"

text \<open>One step of the scan, on items: what the loop body does to the five variables.\<close>

fun apply_item :: "redirection \<Rightarrow> item \<Rightarrow> redirection" where
  "apply_item st (Word w) = st\<lparr>cmd_parts := cmd_parts st @ [w]\<rparr>"
| "apply_item st (Redir opr t) =
     (if is_stdout_op opr then st\<lparr>stdout_file := Some t, stdout_mode := op_mode opr\<rparr>
      else st\<lparr>stderr_file := Some t, stderr_mode := op_mode opr\<rparr>)"

section \<open>The tokenizer: the standard library's shlex.split\<close>

text \<open>
  \<open>Shell.run\<close> tokenizes a line with \<open>shlex.split\<close> of the Python standard library (POSIX
  mode, \<open>whitespace_split\<close> set, no comment characters). A line is a list of characters with
  code points below 256. The lexer \<open>read_tokens\<close> is the state machine of
  \<open>shlex.read_token\<close>, run until the input ends: state \<open>' '\<close> is \<open>LWhite\<close>, state \<open>'a'\<close>
  is \<open>LWord\<close>, a state that is a quote character is \<open>LQuote\<close>, and the state that is the
  escape character is \<open>LEscape\<close>.
\<close>

datatype lex_state = LWhite | LWord | LQuote char | LEscape

definition shlex_whitespace :: "char \<Rightarrow> bool" where
  "shlex_whitespace c \<longleftrightarrow> c \<in> {CHR '' '', CHR 0x09, CHR 0x0D, CHR 0x0A}"

definition shlex_quotes :: "char \<Rightarrow> bool" where
  "shlex_quotes c \<longleftrightarrow> c \<in> {CHR 0x27, CHR 0x22}"

definition shlex_escape :: char where
  "shlex_escape = CHR 0x5C"

definition shlex_escapedquotes :: "char \<Rightarrow> bool" where
  "shlex_escapedquotes c \<longleftrightarrow> c = CHR 0x22"

text \<open>A token leaves \<open>read_token\<close> and joins the list that \<open>list(lex)\<close> builds.\<close>

definition emit :: "string \<Rightarrow> exn + string list \<Rightarrow> exn + string list" where
  "emit tok r = (case r of Inl e \<Rightarrow> Inl e | Inr toks \<Rightarrow> Inr (tok # toks))"

text \<open>
  \<open>read_tokens st es quoted token cs\<close>: the lexer in state \<open>st\<close>, with
  \<open>escapedstate = es\<close>, the flag \<open>quoted\<close>, the characters of the current token and the
  unread input \<open>cs\<close>. Each
  \<open>read_token\<close> call starts with \<open>quoted = False\<close>, \<open>escapedstate = ' '\<close> and an empty token.
  At the end of the input a token is returned if it is not empty or was quoted; end of input
  inside quotes or after the escape character raises \<open>ValueError\<close>.
\<close>

fun read_tokens :: "lex_state \<Rightarrow> lex_state \<Rightarrow> bool \<Rightarrow> string \<Rightarrow> string \<Rightarrow> exn + string list" where
  "read_tokens LWhite es quoted token [] = Inr (if token \<noteq> [] \<or> quoted then [token] else [])"
| "read_tokens LWord es quoted token [] = Inr (if token \<noteq> [] \<or> quoted then [token] else [])"
| "read_tokens (LQuote q) es quoted token [] = Inl ValueError"
| "read_tokens LEscape es quoted token [] = Inl ValueError"
| "read_tokens LWhite es quoted token (c # cs) =
     (if shlex_whitespace c then
        (if token \<noteq> [] \<or> quoted then emit token (read_tokens LWhite LWhite False [] cs)
         else read_tokens LWhite es quoted token cs)
      else if c = shlex_escape then read_tokens LEscape LWord quoted token cs
      else if shlex_quotes c then read_tokens (LQuote c) es quoted token cs
      else read_tokens LWord es quoted [c] cs)"
| "read_tokens (LQuote q) es quoted token (c # cs) =
     (if c = q then read_tokens LWord es True token cs
      else if c = shlex_escape \<and> shlex_escapedquotes q then read_tokens LEscape (LQuote q) True token cs
      else read_tokens (LQuote q) es True (token @ [c]) cs)"
| "read_tokens LEscape es quoted token (c # cs) =
     (let token' =
            (if (case es of LQuote q \<Rightarrow> c \<noteq> shlex_escape \<and> c \<noteq> q | _ \<Rightarrow> False)
             then token @ [shlex_escape] else token)
      in read_tokens es es quoted (token' @ [c]) cs)"
| "read_tokens LWord es quoted token (c # cs) =
     (if shlex_whitespace c then
        (if token \<noteq> [] \<or> quoted then emit token (read_tokens LWhite LWhite False [] cs)
         else read_tokens LWhite es quoted token cs)
      else if shlex_quotes c then read_tokens (LQuote c) es quoted token cs
      else if c = shlex_escape then read_tokens LEscape LWord quoted token cs
      else read_tokens LWord es quoted (token @ [c]) cs)"

definition shlex_split :: "string \<Rightarrow> exn + string list" where
  "shlex_split s = read_tokens LWhite LWhite False [] s"

text \<open>
  \<open>str.split()\<close> without arguments: the maximal runs of characters that are not whitespace.
  \<open>py_isspace\<close> is \<open>str.isspace\<close> on code points below 256.
\<close>

definition py_isspace :: "char \<Rightarrow> bool" where
  "py_isspace c \<longleftrightarrow>
     c \<in> {CHR 0x09, CHR 0x0A, CHR 0x0B, CHR 0x0C, CHR 0x0D, CHR 0x1C, CHR 0x1D, CHR 0x1E,
          CHR 0x1F, CHR 0x20, CHR 0x85, CHR 0xA0}"

fun py_split_from :: "string \<Rightarrow> string \<Rightarrow> string list" where
  "py_split_from cur [] = (if cur = [] then [] else [cur])"
| "py_split_from cur (c # cs) =
     (if py_isspace c then (if cur = [] then py_split_from [] cs else cur # py_split_from [] cs)
      else py_split_from (cur @ [c]) cs)"

definition py_split :: "string \<Rightarrow> string list" where
  "py_split s = py_split_from [] s"

text \<open>\<open>s.split(sep)\<close> for a separator of one character: never empty.\<close>

fun split_from :: "char \<Rightarrow> string \<Rightarrow> string \<Rightarrow> string list" where
  "split_from sep cur [] = [cur]"
| "split_from sep cur (c # cs) =
     (if c = sep then cur # split_from sep [] cs else split_from sep (cur @ [c]) cs)"

definition split_sep :: "char \<Rightarrow> string \<Rightarrow> string list" where
  "split_sep sep s = split_from sep [] s"

text \<open>\<open>" ".join(words)\<close>\<close>

fun join_space :: "string list \<Rightarrow> string" where
  "join_space [] = []"
| "join_space [w] = w"
| "join_space (w # v # ws) = w @ '' '' @ join_space (v # ws)"

section \<open>The operating system, as the shell sees it\<close>

text \<open>
  What the shell writes: the contents of the files it opens for writing, and the text sent
  to the terminal on standard output and standard error.
\<close>

record world =
  files :: "string \<rightharpoonup> string"
  term_out :: string
  term_err :: string

text \<open>
  What the shell reads from the operating system, and the calls it makes there, as
  functions given from outside (POSIX: \<open>os.pathsep\<close> is a colon, \<open>os.sep\<close> a slash):
  \<open>env_PATH\<close> is \<open>os.environ.get("PATH")\<close>; \<open>isdir\<close>, \<open>isfile\<close>, \<open>path_exists\<close> are the
  tests of \<open>os.path\<close>; \<open>access_X_OK p\<close> is \<open>os.access(p, os.X_OK)\<close>; \<open>listdir\<close> returns the
  entries of a directory or raises; \<open>makedirs_err\<close> and \<open>open_err\<close> give the exception that
  \<open>os.makedirs(p, exist_ok=True)\<close> and \<open>open(p, mode)\<close> raise, if any; \<open>subprocess_run\<close> is
  the effect of running a program with its argument vector, executable and the two files
  (if any) that receive its output. These answers stay the same while the shell runs: what
  the shell itself writes goes to redirection targets and to the terminal, which are the
  \<open>world\<close>.
\<close>

record os_env =
  env_PATH :: "string option"
  isdir :: "string \<Rightarrow> bool"
  isfile :: "string \<Rightarrow> bool"
  path_exists :: "string \<Rightarrow> bool"
  access_X_OK :: "string \<Rightarrow> bool"
  listdir :: "string \<Rightarrow> exn + string list"
  makedirs_err :: "string \<Rightarrow> exn option"
  open_err :: "string \<Rightarrow> exn option"
  subprocess_run :: "string list \<Rightarrow> string \<Rightarrow> string option \<Rightarrow> string option \<Rightarrow> world
                       \<Rightarrow> world \<times> exn option"

text \<open>\<open>os.environ.get("PATH", "").split(os.pathsep)\<close>\<close>

definition path_dirs :: "os_env \<Rightarrow> string list" where
  "path_dirs env = split_sep (CHR '':'') (case env_PATH env of None \<Rightarrow> [] | Some p \<Rightarrow> p)"

text \<open>\<open>os.path.join(a, b)\<close> and \<open>os.path.dirname(p)\<close> of \<open>posixpath\<close>.\<close>

definition os_path_join :: "string \<Rightarrow> string \<Rightarrow> string" where
  "os_path_join a b =
     (if prefix ''/'' b then b
      else if a = [] \<or> suffix ''/'' a then a @ b
      else a @ ''/'' @ b)"

definition rstrip_sep :: "string \<Rightarrow> string" where
  "rstrip_sep s = rev (dropWhile (\<lambda>c. c = CHR ''/'') (rev s))"

definition os_path_dirname :: "string \<Rightarrow> string" where
  "os_path_dirname p =
     (let head = rev (dropWhile (\<lambda>c. c \<noteq> CHR ''/'') (rev p))
      in if head \<noteq> [] \<and> head \<noteq> replicate (length head) (CHR ''/'') then rstrip_sep head
         else head)"

section \<open>Completer\<close>

text \<open>The dictionary \<open>matches_cache\<close> with its three keys.\<close>

record cache =
  cache_text :: string
  matches :: "string list"
  lcp :: string

definition cache_init :: cache where
  "cache_init = \<lparr>cache_text = [], matches = [], lcp = []\<rparr>"

text \<open>
  \<open>longest_common_prefix\<close>, renamed because the library has a constant of that name:
  the loop advances \<open>i\<close> while it is below the shortest length and all candidates agree
  with the first at position \<open>i\<close>.
\<close>

function lcp_loop :: "string list \<Rightarrow> nat \<Rightarrow> nat \<Rightarrow> nat" where
  "lcp_loop ms min_len i =
     (if i < min_len \<and> list_all (\<lambda>s. s ! i = (ms ! 0) ! i) ms
      then lcp_loop ms min_len (i + 1) else i)"
  by pat_completeness auto
termination
  by (relation "measure (\<lambda>(ms, min_len, i). min_len - i)") auto

declare lcp_loop.simps [simp del]

definition longest_common_prefix_py :: "string list \<Rightarrow> string" where
  "longest_common_prefix_py ms =
     (if ms = [] then []
      else let min_len = Min (set (map length ms))
           in take (lcp_loop ms min_len 0) (ms ! 0))"

text \<open>
  The scan of the search path in \<open>compute_matches\<close>. \<open>scan_entries\<close> is the inner loop over
  one listing, \<open>scan_path\<close> the outer loop over the directories; a \<open>PermissionError\<close> of
  \<open>listdir\<close> is swallowed, any other exception leaves the function.
\<close>

fun scan_entries :: "os_env \<Rightarrow> string \<Rightarrow> string \<Rightarrow> string list \<Rightarrow> string set \<Rightarrow> string set" where
  "scan_entries env text dir_path [] external = external"
| "scan_entries env text dir_path (f # fs) external =
     (let full = os_path_join dir_path f
      in scan_entries env text dir_path fs
           (if prefix text f \<and> access_X_OK env full then insert f external else external))"

fun scan_path :: "os_env \<Rightarrow> string \<Rightarrow> string list \<Rightarrow> string set \<Rightarrow> exn + string set" where
  "scan_path env text [] external = Inr external"
| "scan_path env text (dir_path # dirs) external =
     (if isdir env dir_path then
        (case listdir env dir_path of
           Inr fs \<Rightarrow> scan_path env text dirs (scan_entries env text dir_path fs external)
         | Inl PermissionError \<Rightarrow> scan_path env text dirs external
         | Inl e \<Rightarrow> Inl e)
      else scan_path env text dirs external)"

definition compute_matches :: "os_env \<Rightarrow> string list \<Rightarrow> string \<Rightarrow> exn + cache" where
  "compute_matches env builtins text =
     (case scan_path env text (path_dirs env) {} of
        Inl e \<Rightarrow> Inl e
      | Inr external \<Rightarrow>
          let builtin_matches = filter (prefix text) builtins;
              all_matches = sorted_list_of_set (external \<union> set builtin_matches);
              l = longest_common_prefix_py all_matches
          in Inr \<lparr>cache_text = text, matches = all_matches, lcp = l\<rparr>)"

text \<open>
  What one call of \<open>complete\<close> leaves behind: the cache, the characters written to
  \<open>sys.stdout\<close> (the bell), and the value returned or the exception raised.
\<close>

record completion =
  cache_after :: cache
  written :: string
  returned :: "exn + string option"

definition bell :: string where
  "bell = [CHR 0x07]"

text \<open>The first statement of \<open>complete\<close>: recompute on request 0 or on a new prefix.\<close>

definition refresh :: "os_env \<Rightarrow> string list \<Rightarrow> cache \<Rightarrow> string \<Rightarrow> int \<Rightarrow> exn + cache" where
  "refresh env builtins c text state =
     (if state = 0 \<or> text \<noteq> cache_text c then compute_matches env builtins text else Inr c)"

text \<open>
  \<open>complete\<close>. In the last branch the source evaluates
  \<open>" ".join(matches[state] + [state - 1][len(text):])\<close>: \<open>matches[state]\<close> raises \<open>IndexError\<close>
  out of range, and otherwise the sum of a string and a list raises \<open>TypeError\<close>.
\<close>

definition complete :: "os_env \<Rightarrow> string list \<Rightarrow> cache \<Rightarrow> string \<Rightarrow> int \<Rightarrow> completion" where
  "complete env builtins c text state =
     (case refresh env builtins c text state of
        Inl e \<Rightarrow> \<lparr>cache_after = c, written = [], returned = Inl e\<rparr>
      | Inr c' \<Rightarrow>
          if matches c' = [] then
            \<lparr>cache_after = c', written = bell, returned = Inr None\<rparr>
          else if length (matches c') = 1 then
            \<lparr>cache_after = c', written = [],
             returned = Inr (Some (drop (length text) (matches c' ! 0) @ '' ''))\<rparr>
          else if state = 0 then
            (if length (lcp c') > length text
             then \<lparr>cache_after = c', written = [],
                   returned = Inr (Some (drop (length text) (lcp c')))\<rparr>
             else \<lparr>cache_after = c', written = bell, returned = Inr None\<rparr>)
          else if state - 1 < int (length (matches c')) then
            (case py_index (matches c') state of
               Inl e \<Rightarrow> \<lparr>cache_after = c', written = [], returned = Inl e\<rparr>
             | Inr m \<Rightarrow> \<lparr>cache_after = c', written = [], returned = Inl TypeError\<rparr>)
          else \<lparr>cache_after = c', written = [], returned = Inr None\<rparr>)"

section \<open>Writing to redirection targets\<close>

text \<open>
  \<open>open_for_write\<close>: creates the parent directory if it is named and missing, then opens
  the file. The handle is the file's name; opening with \<open>"w"\<close> empties the file, opening
  with \<open>"a"\<close> keeps what it holds. Every function that can change the world returns the
  world it leaves together with its value or the exception it raises.
\<close>

definition open_for_write :: "os_env \<Rightarrow> world \<Rightarrow> string \<Rightarrow> fmode \<Rightarrow> world \<times> (exn + string)" where
  "open_for_write env w filename mode =
     (let parent = os_path_dirname filename;
          made = (if parent \<noteq> [] \<and> \<not> path_exists env parent then makedirs_err env parent
                  else None)
      in case made of
           Some e \<Rightarrow> (w, Inl e)
         | None \<Rightarrow>
             (case open_err env filename of
                Some e \<Rightarrow> (w, Inl e)
              | None \<Rightarrow>
                  (w\<lparr>files := (files w)(filename \<mapsto>
                       (case mode of
                          ModeW \<Rightarrow> []
                        | ModeA \<Rightarrow> (case files w filename of None \<Rightarrow> [] | Some old \<Rightarrow> old)))\<rparr>,
                   Inr filename)))"

definition file_write :: "world \<Rightarrow> string \<Rightarrow> string \<Rightarrow> world" where
  "file_write w h s =
     w\<lparr>files := (files w)(h \<mapsto> (case files w h of None \<Rightarrow> [] | Some old \<Rightarrow> old) @ s)\<rparr>"

definition newline :: string where
  "newline = [CHR 0x0A]"

text \<open>\<open>print(s)\<close> and \<open>print(s, file=sys.stderr)\<close>\<close>

definition print_out :: "world \<Rightarrow> string \<Rightarrow> world" where
  "print_out w s = w\<lparr>term_out := term_out w @ s @ newline\<rparr>"

definition print_err :: "world \<Rightarrow> string \<Rightarrow> world" where
  "print_err w s = w\<lparr>term_err := term_err w @ s @ newline\<rparr>"

text \<open>\<open>if name:\<close> for a value that is \<open>None\<close> or a string.\<close>

fun truthy :: "string option \<Rightarrow> bool" where
  "truthy None = False"
| "truthy (Some s) = (s \<noteq> [])"

text \<open>
  \<open>if target: handle = open_for_write(target, mode)\<close>, the handle being \<open>None\<close> otherwise.
\<close>

definition open_if_given :: "os_env \<Rightarrow> world \<Rightarrow> string option \<Rightarrow> fmode \<Rightarrow> world \<times> (exn + string option)" where
  "open_if_given env w target mode =
     (if truthy target
      then (case target of
              None \<Rightarrow> (w, Inr None)
            | Some f \<Rightarrow>
                (case open_for_write env w f mode of
                   (w', Inl e) \<Rightarrow> (w', Inl e)
                 | (w', Inr h) \<Rightarrow> (w', Inr (Some h))))
      else (w, Inr None))"

text \<open>
  The block that \<open>handle_echo\<close> and \<open>handle_type\<close> share: write the output and a newline to
  the stdout target opened by \<open>open_for_write\<close>, or print it.
\<close>

definition write_output :: "os_env \<Rightarrow> world \<Rightarrow> string option \<Rightarrow> fmode \<Rightarrow> string \<Rightarrow> world \<times> (exn + unit)" where
  "write_output env w target mode output =
     (case open_if_given env w target mode of
        (w', Inl e) \<Rightarrow> (w', Inl e)
      | (w', Inr (Some h)) \<Rightarrow> (file_write w' h (output @ newline), Inr ())
      | (w', Inr None) \<Rightarrow> (print_out w' output, Inr ()))"

section \<open>CommandHandler\<close>

text \<open>\<open>sys.exit(0)\<close> raises \<open>SystemExit\<close>; \<open>parts[0]\<close> raises on an empty list.\<close>

definition handle_exit :: "string list \<Rightarrow> exn + bool" where
  "handle_exit parts =
     (case py_index parts 0 of
        Inl e \<Rightarrow> Inl e
      | Inr p0 \<Rightarrow> if p0 = ''exit'' then Inl (SystemExit 0) else Inr False)"

definition handle_echo :: "os_env \<Rightarrow> world \<Rightarrow> string list \<Rightarrow> string option \<Rightarrow> fmode \<Rightarrow> string option \<Rightarrow> fmode
                             \<Rightarrow> world \<times> (exn + bool)" where
  "handle_echo env w parts so so_mode se se_mode =
     (case py_index parts 0 of
        Inl e \<Rightarrow> (w, Inl e)
      | Inr p0 \<Rightarrow>
          if p0 \<noteq> ''echo'' then (w, Inr False)
          else
            (case write_output env w so so_mode (join_space (drop 1 parts)) of
               (w1, Inl e) \<Rightarrow> (w1, Inl e)
             | (w1, Inr u) \<Rightarrow>
                 (case open_if_given env w1 se se_mode of
                    (w2, Inl e) \<Rightarrow> (w2, Inl e)
                  | (w2, Inr h) \<Rightarrow> (w2, Inr True))))"

section \<open>Shell\<close>

definition shell_builtins :: "string list" where
  "shell_builtins = [''echo'', ''type'', ''exit'']"

fun find_in :: "os_env \<Rightarrow> string \<Rightarrow> string list \<Rightarrow> string option" where
  "find_in env program [] = None"
| "find_in env program (directory # ds) =
     (let full_path = os_path_join directory program
      in if isfile env full_path \<and> access_X_OK env full_path then Some full_path
         else find_in env program ds)"

definition find_executable :: "os_env \<Rightarrow> string \<Rightarrow> string option" where
  "find_executable env program = find_in env program (path_dirs env)"

definition handle_type :: "os_env \<Rightarrow> string list \<Rightarrow> world \<Rightarrow> string list \<Rightarrow> string option \<Rightarrow> fmode
                             \<Rightarrow> world \<times> (exn + bool)" where
  "handle_type env builtins w parts so so_mode =
     (case py_index parts 0 of
        Inl e \<Rightarrow> (w, Inl e)
      | Inr p0 \<Rightarrow>
          if p0 \<noteq> ''type'' \<or> length parts \<le> 1 then (w, Inr False)
          else
            (let cmd_name = parts ! 1;
                 output =
                   (if cmd_name \<in> set builtins then cmd_name @ '' is a shell builtin''
                    else (case find_executable env cmd_name of
                            None \<Rightarrow> cmd_name @ '' not found''
                          | Some full_path \<Rightarrow>
                              if full_path = [] then cmd_name @ '' not found''
                              else cmd_name @ '' is '' @ full_path))
             in case write_output env w so so_mode output of
                  (w1, Inl e) \<Rightarrow> (w1, Inl e)
                | (w1, Inr u) \<Rightarrow> (w1, Inr True)))"

text \<open>
  \<open>run_external\<close>, in its two parts. When the name does not resolve, the message goes to
  the stderr target if one is given, and the source opens that target with \<open>stdout_mode\<close>.
  When the name resolves, the targets are opened inside the \<open>try\<close> block, whose \<open>finally\<close>
  closes them and lets every exception pass.
\<close>

definition command_not_found :: "os_env \<Rightarrow> world \<Rightarrow> string \<Rightarrow> string option \<Rightarrow> fmode \<Rightarrow> world \<times> (exn + unit)" where
  "command_not_found env w p0 se so_mode =
     (case open_if_given env w se so_mode of
        (w1, Inl e) \<Rightarrow> (w1, Inl e)
      | (w1, Inr (Some h)) \<Rightarrow> (file_write w1 h (p0 @ '': command not found'' @ newline), Inr ())
      | (w1, Inr None) \<Rightarrow> (print_err w1 (p0 @ '': command not found''), Inr ()))"

definition spawn :: "os_env \<Rightarrow> world \<Rightarrow> string list \<Rightarrow> string \<Rightarrow> string option \<Rightarrow> string option \<Rightarrow> fmode \<Rightarrow> fmode
                       \<Rightarrow> world \<times> (exn + unit)" where
  "spawn env w parts full_path so se so_mode se_mode =
     (case open_if_given env w so so_mode of
        (w1, Inl e) \<Rightarrow> (w1, Inl e)
      | (w1, Inr stdout_handle) \<Rightarrow>
          (case open_if_given env w1 se se_mode of
             (w2, Inl e) \<Rightarrow> (w2, Inl e)
           | (w2, Inr stderr_handle) \<Rightarrow>
               (case subprocess_run env parts full_path stdout_handle stderr_handle w2 of
                  (w3, Some e) \<Rightarrow> (w3, Inl e)
                | (w3, None) \<Rightarrow> (w3, Inr ()))))"

definition run_external :: "os_env \<Rightarrow> world \<Rightarrow> string list \<Rightarrow> string option \<Rightarrow> string option \<Rightarrow> fmode \<Rightarrow> fmode
                              \<Rightarrow> world \<times> (exn + unit)" where
  "run_external env w parts so se so_mode se_mode =
     (case py_index parts 0 of
        Inl e \<Rightarrow> (w, Inl e)
      | Inr p0 \<Rightarrow>
          (case find_executable env p0 of
             None \<Rightarrow> command_not_found env w p0 se so_mode
           | Some full_path \<Rightarrow>
               if full_path = [] then command_not_found env w p0 se so_mode
               else spawn env w parts full_path so se so_mode se_mode))"

text \<open>
  The chain of handlers in the loop of \<open>Shell.run\<close>, for a parsed line: the first handler
  that returns \<open>True\<close> ends the iteration, and \<open>run_external\<close> takes what is left.
\<close>

definition dispatch :: "os_env \<Rightarrow> world \<Rightarrow> redirection \<Rightarrow> world \<times> (exn + unit)" where
  "dispatch env w r =
     (case handle_exit (cmd_parts r) of
        Inl e \<Rightarrow> (w, Inl e)
      | Inr True \<Rightarrow> (w, Inr ())
      | Inr False \<Rightarrow>
          (case handle_echo env w (cmd_parts r) (stdout_file r) (stdout_mode r)
                  (stderr_file r) (stderr_mode r) of
             (w1, Inl e) \<Rightarrow> (w1, Inl e)
           | (w1, Inr True) \<Rightarrow> (w1, Inr ())
           | (w1, Inr False) \<Rightarrow>
               (case handle_type env shell_builtins w1 (cmd_parts r) (stdout_file r)
                       (stdout_mode r) of
                  (w2, Inl e) \<Rightarrow> (w2, Inl e)
                | (w2, Inr True) \<Rightarrow> (w2, Inr ())
                | (w2, Inr False) \<Rightarrow>
                    run_external env w2 (cmd_parts r) (stdout_file r) (stderr_file r)
                      (stdout_mode r) (stderr_mode r))))"

text \<open>
  The body of the loop of \<open>Shell.run\<close> for one line read by \<open>input\<close>: nothing in it
  catches an exception.
\<close>

definition run_line :: "os_env \<Rightarrow> world \<Rightarrow> string \<Rightarrow> world \<times> (exn + unit)" where
  "run_line env w command =
     (if py_split command = [] then (w, Inr ())
      else
        (case shlex_split command of
           Inl e \<Rightarrow> (w, Inl e)
         | Inr parts \<Rightarrow>
             (case parse_redirection parts of
                Inl e \<Rightarrow> (w, Inl e)
              | Inr r \<Rightarrow> dispatch env w r)))"

text \<open>
  \<open>Shell.run\<close> on the lines that the input will deliver before it ends. \<open>input("$ ")\<close>
  writes the prompt; at the end of the input \<open>EOFError\<close> is caught, a newline is printed
  and the loop is left. Any other exception leaves \<open>run\<close> and ends the process.
\<close>

datatype outcome = EndOfInput | Uncaught exn

definition prompt :: "world \<Rightarrow> world" where
  "prompt w = w\<lparr>term_out := term_out w @ ''$ ''\<rparr>"

fun run :: "os_env \<Rightarrow> world \<Rightarrow> string list \<Rightarrow> world \<times> outcome" where
  "run env w [] = (print_out (prompt w) [], EndOfInput)"
| "run env w (command # rest) =
     (case run_line env (prompt w) command of
        (w', Inl e) \<Rightarrow> (w', Uncaught e)
      | (w', Inr u) \<Rightarrow> run env w' rest)"

section \<open>Notions of the specification\<close>

text \<open>
  The longest common prefix of a list of strings: a prefix of each of them that every
  common prefix is a prefix of.
\<close>

definition is_lcp :: "string \<Rightarrow> string list \<Rightarrow> bool" where
  "is_lcp p ms \<longleftrightarrow>
     (\<forall>s\<in>set ms. prefix p s) \<and> (\<forall>q. (\<forall>s\<in>set ms. prefix q s) \<longrightarrow> prefix q p)"

text \<open>
  The search path of the data model: the directories named in the \<open>PATH\<close> value, in order.
  They are the pieces of the value between its colons, so joining them with colons gives the
  value back and no piece holds a colon; the empty or missing value has the one empty piece.
\<close>

fun join_sep :: "char \<Rightarrow> string list \<Rightarrow> string" where
  "join_sep sep [] = []"
| "join_sep sep [d] = d"
| "join_sep sep (d # d' # ds) = d @ sep # join_sep sep (d' # ds)"

definition search_path :: "os_env \<Rightarrow> string list \<Rightarrow> bool" where
  "search_path env dirs \<longleftrightarrow>
     dirs \<noteq> [] \<and> list_all (\<lambda>d. CHR '':'' \<notin> set d) dirs \<and>
     join_sep (CHR '':'') dirs = (case env_PATH env of None \<Rightarrow> [] | Some p \<Rightarrow> p)"

text \<open>
  The executables of the given directories whose names start with the prefix, as the
  resolver understands them: the names of regular files with execute permission.
\<close>

definition executable_files :: "os_env \<Rightarrow> string list \<Rightarrow> string \<Rightarrow> string set" where
  "executable_files env dirs text =
     {f. prefix text f \<and>
         (\<exists>d\<in>set dirs. isfile env (os_path_join d f) \<and> access_X_OK env (os_path_join d f))}"

text \<open>
  The entries with execute permission, of any kind, whose names start with the prefix and
  which are listed in one of the given directories: the directory is one for \<open>isdir\<close> and
  its listing succeeds.
\<close>

definition listed_entries :: "os_env \<Rightarrow> string list \<Rightarrow> string \<Rightarrow> string set" where
  "listed_entries env dirs text =
     {f. \<exists>d\<in>set dirs. isdir env d \<and>
           (\<exists>fs. listdir env d = Inr fs \<and> f \<in> set fs \<and> prefix text f \<and>
                 access_X_OK env (os_path_join d f))}"

text \<open>
  The exception that \<open>open_for_write\<close> raises for a file name, read off the operating
  system; and the targets that the dispatch of a parsed line opens, in the order in which it
  opens them.
\<close>

definition open_exn :: "os_env \<Rightarrow> string \<Rightarrow> exn option" where
  "open_exn env filename =
     (let parent = os_path_dirname filename
      in case (if parent \<noteq> [] \<and> \<not> path_exists env parent then makedirs_err env parent
               else None) of
           Some e \<Rightarrow> Some e
         | None \<Rightarrow> open_err env filename)"

definition given :: "string option \<Rightarrow> string list" where
  "given target = (case target of None \<Rightarrow> [] | Some f \<Rightarrow> if f = [] then [] else [f])"

definition targets_opened :: "os_env \<Rightarrow> redirection \<Rightarrow> string list" where
  "targets_opened env r =
     (case cmd_parts r of
        [] \<Rightarrow> []
      | p0 # args \<Rightarrow>
          if p0 = ''exit'' then []
          else if p0 = ''echo'' then given (stdout_file r) @ given (stderr_file r)
          else if p0 = ''type'' \<and> args \<noteq> [] then given (stdout_file r)
          else (case find_executable env p0 of
                  None \<Rightarrow> given (stderr_file r)
                | Some full_path \<Rightarrow>
                    if full_path = [] then given (stderr_file r)
                    else given (stdout_file r) @ given (stderr_file r)))"

text \<open>
  What \<open>echo\<close> prints before it opens its stderr target: its output, when it has no stdout
  target. No other command prints before it opens a target.
\<close>

definition echo_printed :: "redirection \<Rightarrow> string" where
  "echo_printed r =
     (case cmd_parts r of
        [] \<Rightarrow> []
      | p0 # args \<Rightarrow>
          if p0 = ''echo'' \<and> given (stdout_file r) = [] then join_space args @ newline
          else [])"

section \<open>Example systems\<close>

text \<open>
  A system whose search path is \<open>/bin\<close>, holding the programs \<open>top\<close>, \<open>ls\<close>, \<open>lisp\<close> and
  \<open>list\<close> and an accessible subdirectory \<open>sub\<close>; the file \<open>/locked/f\<close> cannot be opened.
\<close>

definition env_bin :: os_env where
  "env_bin =
     \<lparr>env_PATH = Some ''/bin'',
      isdir = (\<lambda>p. p = ''/bin'' \<or> p = ''/bin/sub''),
      isfile = (\<lambda>p. p \<in> {''/bin/top'', ''/bin/ls'', ''/bin/lisp'', ''/bin/list''}),
      path_exists = (\<lambda>p. p = ''/bin'' \<or> p = ''/locked''),
      access_X_OK =
        (\<lambda>p. p \<in> {''/bin/top'', ''/bin/ls'', ''/bin/lisp'', ''/bin/list'', ''/bin/sub''}),
      listdir =
        (\<lambda>p. if p = ''/bin'' then Inr [''top'', ''ls'', ''sub'', ''list'', ''lisp'']
             else Inl OSError),
      makedirs_err = (\<lambda>p. None),
      open_err = (\<lambda>p. if p = ''/locked/f'' then Some PermissionError else None),
      subprocess_run = (\<lambda>parts full_path so se w. (w, None))\<rparr>"

text \<open>
  A system with no \<open>PATH\<close> variable and an executable file \<open>prog\<close> in the working
  directory.
\<close>

definition env_cwd :: os_env where
  "env_cwd =
     \<lparr>env_PATH = None,
      isdir = (\<lambda>p. False),
      isfile = (\<lambda>p. p = ''prog''),
      path_exists = (\<lambda>p. p = ''prog''),
      access_X_OK = (\<lambda>p. p = ''prog''),
      listdir = (\<lambda>p. Inl OSError),
      makedirs_err = (\<lambda>p. None),
      open_err = (\<lambda>p. None),
      subprocess_run = (\<lambda>parts full_path so se w. (w, None))\<rparr>"

text \<open>
  A system with two directories on the search path: \<open>top\<close> is in both, \<open>/bin\<close> has a program
  named like the built-in \<open>echo\<close>, and \<open>/usr/bin\<close> has \<open>tac\<close>.
\<close>

definition env_two :: os_env where
  "env_two =
     \<lparr>env_PATH = Some ''/bin:/usr/bin'',
      isdir = (\<lambda>p. p = ''/bin'' \<or> p = ''/usr/bin''),
      isfile = (\<lambda>p. p \<in> {''/bin/top'', ''/bin/echo'', ''/usr/bin/top'', ''/usr/bin/tac''}),
      path_exists = (\<lambda>p. p = ''/bin'' \<or> p = ''/usr/bin''),
      access_X_OK =
        (\<lambda>p. p \<in> {''/bin/top'', ''/bin/echo'', ''/usr/bin/top'', ''/usr/bin/tac''}),
      listdir =
        (\<lambda>p. if p = ''/bin'' then Inr [''top'', ''echo'']
             else if p = ''/usr/bin'' then Inr [''top'', ''tac'']
             else Inl OSError),
      makedirs_err = (\<lambda>p. None),
      open_err = (\<lambda>p. None),
      subprocess_run = (\<lambda>parts full_path so se w. (w, None))\<rparr>"

definition cache_two :: cache where
  "cache_two =
     \<lparr>cache_text = [], matches = [''echo'', ''exit'', ''tac'', ''top'', ''type''], lcp = []\<rparr>"

definition world_init :: world where
  "world_init = \<lparr>files = Map.empty, term_out = [], term_err = []\<rparr>"

text \<open>A world in which \<open>out.txt\<close> already holds a line.\<close>

definition world_old :: world where
  "world_old = \<lparr>files = [''out.txt'' \<mapsto> ''old'' @ newline], term_out = [], term_err = []\<rparr>"

text \<open>The cache after the first request for the prefix \<open>t\<close> on \<open>env_bin\<close>.\<close>

definition cache_t :: cache where
  "cache_t = \<lparr>cache_text = ''t'', matches = [''top'', ''type''], lcp = ''t''\<rparr>"

text \<open>The caches after a request for the prefix \<open>li\<close>, for \<open>ec\<close> and for the empty prefix.\<close>

definition cache_li :: cache where
  "cache_li = \<lparr>cache_text = ''li'', matches = [''lisp'', ''list''], lcp = ''lis''\<rparr>"

definition cache_ec :: cache where
  "cache_ec = \<lparr>cache_text = ''ec'', matches = [''echo''], lcp = ''echo''\<rparr>"

definition cache_all :: cache where
  "cache_all =
     \<lparr>cache_text = [],
      matches = [''echo'', ''exit'', ''lisp'', ''list'', ''ls'', ''sub'', ''top'', ''type''],
      lcp = []\<rparr>"

text \<open>A line with a quotation that is never closed: \<open>echo "abc\<close>.\<close>

definition line_open_quote :: string where
  "line_open_quote = ''echo '' @ [CHR 0x22] @ ''abc''"

section \<open>The redirection parser meets its contract\<close>

text \<open>
  The loop, started behind a prefix that it has already read, on a sequence of items: it
  performs \<open>apply_item\<close> for each item in turn.
\<close>

lemma parse_loop_items:
  "\<forall>it\<in>set its. wf_item it \<Longrightarrow>
   parse_loop (pre @ concat (map tokens_of its) ) (length pre) st
     = Inr (foldl apply_item st its)"
proof (induction its arbitrary: pre st)
  case Nil
  then show ?case by (simp add: parse_loop.simps [of pre "length pre" st])
next
  case (Cons it its)
  show ?case
  proof (cases it)
    case (Word w)
    with Cons.prems have nw: "\<not> is_operator w" by simp
    have "parse_loop ((pre @ [w]) @ concat (map tokens_of its)) (length (pre @ [w])) (apply_item st it)
          = Inr (foldl apply_item (apply_item st it) its)"
      using Cons.prems by (intro Cons.IH) simp
    then show ?thesis using nw Word
      by (simp add: parse_loop.simps [of "pre @ w # concat (map tokens_of its)" "length pre" st]
          is_operator_def is_stdout_op_def is_stderr_op_def nth_append)
  next
    case (Redir opr t)
    with Cons.prems have isop: "is_operator opr" by simp
    have "parse_loop ((pre @ [opr, t]) @ concat (map tokens_of its)) (length (pre @ [opr, t])) (apply_item st it)
          = Inr (foldl apply_item (apply_item st it) its)"
      using Cons.prems by (intro Cons.IH) simp
    then show ?thesis using isop Redir
      by (auto simp add: parse_loop.simps [of "pre @ opr # t # concat (map tokens_of its)" "length pre" st]
          is_operator_def is_stdout_op_def is_stderr_op_def nth_append op_mode_def)
  qed
qed

lemma parse_loop_dangling:
  "\<forall>it\<in>set its. wf_item it \<Longrightarrow> is_operator opr \<Longrightarrow>
   parse_loop (pre @ concat (map tokens_of its) @ [opr]) (length pre) st = Inl IndexError"
proof (induction its arbitrary: pre st)
  case Nil
  then show ?case
    by (auto simp add: parse_loop.simps [of "pre @ [opr]" "length pre" st]
          is_operator_def is_stdout_op_def is_stderr_op_def)
next
  case (Cons it its)
  show ?case
  proof (cases it)
    case (Word w)
    with Cons.prems have nw: "\<not> is_operator w" by simp
    have "parse_loop ((pre @ [w]) @ concat (map tokens_of its) @ [opr]) (length (pre @ [w])) (apply_item st it)
          = Inl IndexError"
      using Cons.prems by (intro Cons.IH) simp_all
    then show ?thesis using nw Word
      by (simp add: parse_loop.simps [of "pre @ w # concat (map tokens_of its) @ [opr]" "length pre" st]
          is_operator_def is_stdout_op_def is_stderr_op_def nth_append)
  next
    case (Redir opr' t)
    with Cons.prems have isop: "is_operator opr'" by simp
    have "parse_loop ((pre @ [opr', t]) @ concat (map tokens_of its) @ [opr]) (length (pre @ [opr', t])) (apply_item st it)
          = Inl IndexError"
      using Cons.prems by (intro Cons.IH) simp_all
    then show ?thesis using isop Redir
      by (auto simp add: parse_loop.simps [of "pre @ opr' # t # concat (map tokens_of its) @ [opr]" "length pre" st]
          is_operator_def is_stdout_op_def is_stderr_op_def nth_append op_mode_def)
  qed
qed

lemma last_redir_snoc:
  "last_redir p (its @ [it]) =
     (case redir_of p it of [] \<Rightarrow> last_redir p its | r # rs \<Rightarrow> Some r)"
  by (cases it) (auto simp: last_redir_def split: list.splits)

lemma foldl_apply_item_spec:
  "\<forall>it\<in>set its. wf_item it \<Longrightarrow> foldl apply_item redirection_init its = spec_redirection its"
proof (induction its rule: rev_induct)
  case Nil
  then show ?case by (simp add: spec_redirection_def redirection_init_def last_redir_def)
next
  case (snoc it its)
  then have IH: "foldl apply_item redirection_init its = spec_redirection its" by simp
  from snoc.prems have wf: "wf_item it" by simp
  show ?case
  proof (cases it)
    case (Word w)
    then show ?thesis using IH
      by (simp add: spec_redirection_def last_redir_snoc)
  next
    case (Redir opr t)
    then show ?thesis using IH wf
      by (auto simp add: spec_redirection_def last_redir_snoc is_operator_def is_stdout_op_def is_stderr_op_def)
  qed
qed

lemma parse_redirection_dangling:
  "\<forall>it\<in>set its. wf_item it \<Longrightarrow> is_operator opr \<Longrightarrow>
   parse_redirection (concat (map tokens_of its) @ [opr]) = Inl IndexError"
  using parse_loop_dangling [of its opr "[]" redirection_init]
  by (simp add: parse_redirection_def)

text \<open>Every word list is a sequence of items, or such a sequence followed by an operator.\<close>

lemma words_decompose:
  "\<exists>its. (\<forall>it\<in>set its. wf_item it) \<and>
     (ws = concat (map tokens_of its) \<or> (\<exists>opr. is_operator opr \<and> ws = concat (map tokens_of its) @ [opr]))"
proof (induction ws rule: length_induct)
  case (1 ws)
  show ?case
  proof (cases ws)
    case Nil
    then show ?thesis by (intro exI [of _ "[]"]) simp
  next
    case (Cons w ws')
    show ?thesis
    proof (cases "is_operator w")
      case False
      have "length ws' < length ws" using Cons by simp
      with 1 obtain its where its: "\<forall>it\<in>set its. wf_item it"
        "ws' = concat (map tokens_of its) \<or> (\<exists>opr. is_operator opr \<and> ws' = concat (map tokens_of its) @ [opr])"
        by blast
      with False Cons show ?thesis
        by (intro exI [of _ "Word w # its"]) auto
    next
      case True
      show ?thesis
      proof (cases ws')
        case Nil
        with True Cons show ?thesis by (intro exI [of _ "[]"]) simp
      next
        case (Cons t ws'')
        have "length ws'' < length ws" using \<open>ws = w # ws'\<close> Cons by simp
        with 1 obtain its where its: "\<forall>it\<in>set its. wf_item it"
          "ws'' = concat (map tokens_of its) \<or> (\<exists>opr. is_operator opr \<and> ws'' = concat (map tokens_of its) @ [opr])"
          by blast
        with True Cons \<open>ws = w # ws'\<close> show ?thesis
          by (intro exI [of _ "Redir w t # its"]) auto
      qed
    qed
  qed
qed

text \<open>
  C5. For every word sequence made of ordinary words and of operator tokens each followed
  by one word, in any arrangement, the parser removes each operator and the word after it,
  keeps the other words in their order as the command vector, and gives each stream the
  target and mode of the last operator for that stream.
\<close>

theorem parse_redirection_items:
  assumes "\<forall>it\<in>set its. wf_item it"
  shows "parse_redirection (concat (map tokens_of its)) = Inr (spec_redirection its)"
  using parse_loop_items [OF assms, of "[]" redirection_init] foldl_apply_item_spec [OF assms]
  by (simp add: parse_redirection_def)

theorem parse_redirection_items_witness:
  "wf_item (Word ''echo'') \<and> wf_item (Redir ''>'' ''f'') \<and> wf_item (Word ''hi'') \<and>
   wf_item (Redir ''2>>'' ''g'') \<and> wf_item (Redir ''>>'' ''h'') \<and>
   parse_redirection [''echo'', ''>'', ''f'', ''hi'', ''2>>'', ''g'', ''>>'', ''h''] =
     Inr \<lparr>cmd_parts = [''echo'', ''hi''], stdout_file = Some ''h'', stdout_mode = ModeA,
          stderr_file = Some ''g'', stderr_mode = ModeA\<rparr>"
  using parse_redirection_items
    [of "[Word ''echo'', Redir ''>'' ''f'', Word ''hi'', Redir ''2>>'' ''g'', Redir ''>>'' ''h'']"]
  by (simp add: spec_redirection_def last_redir_def is_operator_def is_stdout_op_def
      is_stderr_op_def op_mode_def)


section \<open>The candidate list and its common prefix\<close>

text \<open>What the two loops of the scan add to the set \<open>external\<close>.\<close>

lemma scan_entries_set:
  "scan_entries env text d fs ext =
     ext \<union> {f \<in> set fs. prefix text f \<and> access_X_OK env (os_path_join d f)}"
  by (induction fs arbitrary: ext) (auto simp: Let_def)

lemma scan_path_set:
  "scan_path env text dirs ext = Inr X \<Longrightarrow>
   X = ext \<union> {f. \<exists>d\<in>set dirs. isdir env d \<and>
           (\<exists>fs. listdir env d = Inr fs \<and> f \<in> set fs \<and> prefix text f \<and>
                 access_X_OK env (os_path_join d f))}"
proof (induction dirs arbitrary: ext)
  case Nil
  then show ?case by simp
next
  case (Cons d dirs)
  show ?case
  proof (cases "isdir env d")
    case False
    with Cons.prems have "scan_path env text dirs ext = Inr X" by simp
    from Cons.IH [OF this] False show ?thesis by auto
  next
    case True
    show ?thesis
    proof (cases "listdir env d")
      case (Inr fs)
      with True Cons.prems
      have "scan_path env text dirs (scan_entries env text d fs ext) = Inr X" by simp
      from Cons.IH [OF this] True Inr show ?thesis
        by (auto simp: scan_entries_set)
    next
      case (Inl e)
      with True Cons.prems have e: "e = PermissionError" and
        "scan_path env text dirs ext = Inr X"
        by (auto split: exn.splits)
      from Cons.IH [OF this(2)] True Inl show ?thesis by auto
    qed
  qed
qed

lemma scan_entries_finite: "finite ext \<Longrightarrow> finite (scan_entries env text d fs ext)"
  by (simp add: scan_entries_set)

lemma scan_path_finite:
  "scan_path env text dirs ext = Inr X \<Longrightarrow> finite ext \<Longrightarrow> finite X"
proof (induction dirs arbitrary: ext)
  case Nil
  then show ?case by simp
next
  case (Cons d dirs)
  then show ?case
    by (auto split: if_splits sum.splits exn.splits intro: scan_entries_finite)
qed

text \<open>The cache that a recomputation stores.\<close>

lemma compute_matches_Inr:
  assumes "compute_matches env builtins text = Inr c"
  shows "cache_text c = text"
    and "sorted (matches c)" and "distinct (matches c)"
    and "set (matches c) =
           {b \<in> set builtins. prefix text b} \<union> listed_entries env (path_dirs env) text"
    and "lcp c = longest_common_prefix_py (matches c)"
proof -
  from assms obtain X where X: "scan_path env text (path_dirs env) {} = Inr X"
    and c: "c = \<lparr>cache_text = text,
                 matches = sorted_list_of_set (X \<union> set (filter (prefix text) builtins)),
                 lcp = longest_common_prefix_py
                         (sorted_list_of_set (X \<union> set (filter (prefix text) builtins)))\<rparr>"
    by (auto simp: compute_matches_def Let_def split: sum.splits)
  from scan_path_finite [OF X] have fin: "finite (X \<union> set (filter (prefix text) builtins))"
    by simp
  from scan_path_set [OF X] have Xeq: "X = listed_entries env (path_dirs env) text"
    by (simp add: listed_entries_def)
  show "cache_text c = text" using c by simp
  show "sorted (matches c)" using c by simp
  show "distinct (matches c)" using c by simp
  show "set (matches c) =
          {b \<in> set builtins. prefix text b} \<union> listed_entries env (path_dirs env) text"
    using c fin Xeq by auto
  show "lcp c = longest_common_prefix_py (matches c)" using c by simp
qed

text \<open>
  The invariant of the loop of \<open>longest_common_prefix\<close>: all candidates agree with the
  first on their first \<open>i\<close> characters; the loop stops at the shortest length or at a
  position where two candidates differ.
\<close>

lemma lcp_loop_inv:
  "ms \<noteq> [] \<Longrightarrow> \<forall>s\<in>set ms. n \<le> length s \<Longrightarrow> i \<le> n \<Longrightarrow>
   \<forall>s\<in>set ms. take i s = take i (ms ! 0) \<Longrightarrow>
     (let k = lcp_loop ms n i
      in k \<le> n \<and> (\<forall>s\<in>set ms. take k s = take k (ms ! 0)) \<and>
         (k = n \<or> \<not> list_all (\<lambda>s. s ! k = (ms ! 0) ! k) ms))"
proof (induction ms n i rule: lcp_loop.induct)
  case (1 ms n i)
  show ?case
  proof (cases "i < n \<and> list_all (\<lambda>s. s ! i = (ms ! 0) ! i) ms")
    case False
    then have "lcp_loop ms n i = i" by (subst lcp_loop.simps) auto
    moreover from False have "i = n \<or> \<not> list_all (\<lambda>s. s ! i = (ms ! 0) ! i) ms"
      using "1.prems"(3) by auto
    ultimately show ?thesis using "1.prems"(3,4) by (simp only: Let_def)
  next
    case True
    have len: "\<forall>s\<in>set ms. i < length s"
    proof
      fix s assume "s \<in> set ms"
      with "1.prems"(2) have "n \<le> length s" by blast
      with True show "i < length s" by simp
    qed
    have "ms ! 0 \<in> set ms" using "1.prems"(1) by (cases ms) auto
    with len have len0: "i < length (ms ! 0)" by blast
    have "\<forall>s\<in>set ms. take (i + 1) s = take (i + 1) (ms ! 0)"
    proof
      fix s assume s: "s \<in> set ms"
      from True have "list_all (\<lambda>s. s ! i = (ms ! 0) ! i) ms" by blast
      with s have eq: "s ! i = (ms ! 0) ! i" unfolding list_all_iff by blast
      from s len have "take (Suc i) s = take i s @ [s ! i]"
        by (intro take_Suc_conv_app_nth) blast
      moreover from len0 have "take (Suc i) (ms ! 0) = take i (ms ! 0) @ [(ms ! 0) ! i]"
        by (rule take_Suc_conv_app_nth)
      moreover from s "1.prems"(4) have "take i s = take i (ms ! 0)" by blast
      ultimately show "take (i + 1) s = take (i + 1) (ms ! 0)"
        using eq by (simp only: Suc_eq_plus1 [symmetric])
    qed
    moreover from True have "i + 1 \<le> n" by simp
    ultimately
    have "let k = lcp_loop ms n (i + 1)
      in k \<le> n \<and> (\<forall>s\<in>set ms. take k s = take k (ms ! 0)) \<and>
         (k = n \<or> \<not> list_all (\<lambda>s. s ! k = (ms ! 0) ! k) ms)"
      using "1.IH" [OF True "1.prems"(1) "1.prems"(2)] by blast
    moreover have "lcp_loop ms n i = lcp_loop ms n (i + 1)"
      using True by (subst lcp_loop.simps) simp
    ultimately show ?thesis by (simp only:)
  qed
qed


lemma longest_common_prefix_is_lcp: "ms \<noteq> [] \<Longrightarrow> is_lcp (longest_common_prefix_py ms) ms"
proof -
  assume ne: "ms \<noteq> []"
  let ?n = "Min (set (map length ms))"
  define k where "k = lcp_loop ms ?n 0"
  have "\<forall>s\<in>set ms. ?n \<le> length s" by (auto intro: Min_le)
  from lcp_loop_inv [OF ne this, of 0]
  have k: "k \<le> ?n" "\<forall>s\<in>set ms. take k s = take k (ms ! 0)"
    "k = ?n \<or> \<not> list_all (\<lambda>s. s ! k = (ms ! 0) ! k) ms"
    by (simp_all add: Let_def k_def)
  have res: "longest_common_prefix_py ms = take k (ms ! 0)"
    using ne by (simp add: longest_common_prefix_py_def k_def Let_def)
  have h: "ms ! 0 \<in> set ms" using ne by (cases ms) auto
  have pre: "\<forall>s\<in>set ms. prefix (take k (ms ! 0)) s"
  proof
    fix s assume "s \<in> set ms"
    with k(2) have "take k (ms ! 0) = take k s" by simp
    then show "prefix (take k (ms ! 0)) s" by (simp add: take_is_prefix)
  qed
  have maxi: "prefix q (take k (ms ! 0))" if q: "\<forall>s\<in>set ms. prefix q s" for q
  proof -
    from q h have qh: "prefix q (ms ! 0)" by blast
    have "length q \<le> k"
    proof (rule ccontr)
      assume "\<not> length q \<le> k"
      then have kq: "k < length q" by simp
      from k(3) show False
      proof
        assume "k = ?n"
        have "?n \<in> set (map length ms)" using ne by (intro Min_in) auto
        then obtain s where s: "s \<in> set ms" "length s = ?n" by auto
        from q s(1) have "prefix q s" by blast
        then have "length q \<le> length s" by (rule prefix_length_le)
        with s \<open>k = ?n\<close> kq show False by simp
      next
        assume "\<not> list_all (\<lambda>s. s ! k = (ms ! 0) ! k) ms"
        then obtain s where s: "s \<in> set ms" "s ! k \<noteq> (ms ! 0) ! k"
          by (auto simp: list_all_iff)
        from q s have "prefix q s" by blast
        with kq have "s ! k = q ! k" by (auto simp: prefix_def nth_append)
        moreover from qh kq have "(ms ! 0) ! k = q ! k" by (auto simp: prefix_def nth_append)
        ultimately show False using s by simp
      qed
    qed
    with qh show ?thesis by (auto simp: prefix_def)
  qed
  show ?thesis unfolding is_lcp_def res using pre maxi by blast
qed


section \<open>What a completion request returns\<close>

text \<open>
  Splitting the \<open>PATH\<close> value at its colons gives the search path: the only list of
  colon-free pieces that joins to the value.
\<close>

lemma split_from_no_sep:
  "sep \<notin> set d \<Longrightarrow> split_from sep cur (d @ rest) = split_from sep (cur @ d) rest"
  by (induction d arbitrary: cur) auto

lemma split_from_join:
  "list_all (\<lambda>d. sep \<notin> set d) (d # ds) \<Longrightarrow>
   split_from sep cur (join_sep sep (d # ds)) = (cur @ d) # ds"
proof (induction ds arbitrary: d cur)
  case Nil
  then show ?case using split_from_no_sep [of sep d cur "[]"] by simp
next
  case (Cons d' ds)
  from Cons.prems have d: "sep \<notin> set d" and rest: "list_all (\<lambda>d. sep \<notin> set d) (d' # ds)"
    by simp_all
  have "split_from sep cur (join_sep sep (d # d' # ds)) =
        split_from sep (cur @ d) (sep # join_sep sep (d' # ds))"
    using split_from_no_sep [OF d] by simp
  also have "\<dots> = (cur @ d) # split_from sep [] (join_sep sep (d' # ds))" by simp
  also have "\<dots> = (cur @ d) # d' # ds" using Cons.IH [OF rest, of "[]"] by simp
  finally show ?case .
qed

lemma search_path_path_dirs: "search_path env dirs \<Longrightarrow> path_dirs env = dirs"
proof -
  assume sp: "search_path env dirs"
  then obtain d ds where dirs: "dirs = d # ds" by (cases dirs) (auto simp: search_path_def)
  with sp have "list_all (\<lambda>d. CHR '':'' \<notin> set d) (d # ds)" by (simp add: search_path_def)
  from split_from_join [OF this, of "[]"] sp dirs show ?thesis
    by (simp add: path_dirs_def split_sep_def search_path_def)
qed

text \<open>
  C8, as stated, fails: on \<open>env_bin\<close> the candidate list for the empty prefix holds \<open>sub\<close>,
  which is no built-in and no executable of the search path: \<open>/bin/sub\<close> is a directory,
  and the resolver does not find it.
\<close>

theorem candidate_not_executable:
  "search_path env_bin [''/bin''] \<and>
   compute_matches env_bin shell_builtins [] = Inr cache_all \<and>
   ''sub'' \<in> set (matches cache_all) \<and> ''sub'' \<notin> set shell_builtins \<and>
   ''sub'' \<notin> executable_files env_bin [''/bin''] [] \<and>
   find_executable env_bin ''sub'' = None"
proof -
  have a: "search_path env_bin [''/bin'']" by (simp add: search_path_def env_bin_def)
  have b: "compute_matches env_bin shell_builtins [] = Inr cache_all" by code_simp
  have c: "''sub'' \<in> set (matches cache_all)" by (simp add: cache_all_def)
  have d: "''sub'' \<notin> set shell_builtins" by (simp add: shell_builtins_def)
  have "isfile env_bin (os_path_join ''/bin'' ''sub'') = False" by code_simp
  then have e: "''sub'' \<notin> executable_files env_bin [''/bin''] []"
    by (simp add: executable_files_def)
  have f: "find_executable env_bin ''sub'' = None" by code_simp
  from a b c d e f show ?thesis by blast
qed

text \<open>
  C8, amended. After a recomputation of the cache, which every request with index 0
  performs, the candidate list is sorted, has no duplicates, and holds exactly the built-in
  names that start with the prefix and the names that start with the prefix of the entries
  with execute permission, of any kind, listed in a directory of the search path whose
  listing succeeds; for the empty prefix these are all built-in names and all such entries.
\<close>

theorem compute_matches_candidates:
  assumes "compute_matches env builtins text = Inr c" and "search_path env dirs"
  shows "sorted (matches c) \<and> distinct (matches c) \<and>
         set (matches c) = {b \<in> set builtins. prefix text b} \<union> listed_entries env dirs text \<and>
         (text = [] \<longrightarrow>
            set (matches c) = set builtins \<union>
              {f. \<exists>d\<in>set dirs. isdir env d \<and>
                    (\<exists>fs. listdir env d = Inr fs \<and> f \<in> set fs \<and>
                          access_X_OK env (os_path_join d f))}) \<and>
         cache_after (complete env builtins c0 text 0) = c"
proof -
  note cm = compute_matches_Inr [OF assms(1)]
  from assms(2) have pd: "path_dirs env = dirs" by (rule search_path_path_dirs)
  have eq: "set (matches c) = {b \<in> set builtins. prefix text b} \<union> listed_entries env dirs text"
    using cm(4) pd by simp
  have "set (matches c) = set builtins \<union>
              {f. \<exists>d\<in>set dirs. isdir env d \<and>
                    (\<exists>fs. listdir env d = Inr fs \<and> f \<in> set fs \<and>
                          access_X_OK env (os_path_join d f))}" if "text = []"
    using eq that by (simp add: listed_entries_def)
  moreover have "cache_after (complete env builtins c0 text 0) = c"
    using assms(1) by (simp add: complete_def refresh_def)
  ultimately show ?thesis using cm(2,3) eq by blast
qed

theorem compute_matches_candidates_witness:
  "compute_matches env_two shell_builtins [] = Inr cache_two \<and>
   search_path env_two [''/bin'', ''/usr/bin''] \<and>
   matches cache_two = [''echo'', ''exit'', ''tac'', ''top'', ''type''] \<and>
   sorted (matches cache_two) \<and> distinct (matches cache_two) \<and>
   set (matches cache_two) = set shell_builtins \<union>
     {f. \<exists>d\<in>set [''/bin'', ''/usr/bin'']. isdir env_two d \<and>
           (\<exists>fs. listdir env_two d = Inr fs \<and> f \<in> set fs \<and>
                 access_X_OK env_two (os_path_join d f))}"
proof -
  have h: "compute_matches env_two shell_builtins [] = Inr cache_two" by code_simp
  have sp: "search_path env_two [''/bin'', ''/usr/bin'']"
    by (simp add: search_path_def env_two_def)
  have m: "matches cache_two = [''echo'', ''exit'', ''tac'', ''top'', ''type'']"
    by (simp add: cache_two_def)
  from compute_matches_candidates [OF h sp] h sp m show ?thesis by blast
qed

text \<open>
  C6. A request with index 0 on a prefix with two or more candidates: when the longest
  common prefix of the candidates is longer than the typed prefix, the request returns what
  that common prefix adds to the typed prefix, with nothing appended and without the bell;
  otherwise it rings the bell and returns nothing. The cached \<open>lcp\<close> is the longest common
  prefix of the candidates and starts with the typed prefix.
\<close>

theorem complete_multiple_first:
  assumes "compute_matches env builtins text = Inr c'" and "2 \<le> length (matches c')"
  shows "complete env builtins c text 0 =
           (if length (lcp c') > length text
            then \<lparr>cache_after = c', written = [],
                  returned = Inr (Some (drop (length text) (lcp c')))\<rparr>
            else \<lparr>cache_after = c', written = bell, returned = Inr None\<rparr>) \<and>
         is_lcp (lcp c') (matches c') \<and>
         lcp c' = text @ drop (length text) (lcp c')"
proof -
  from assms(2) have ne: "matches c' \<noteq> []" by auto
  have l: "lcp c' = longest_common_prefix_py (matches c')"
    using compute_matches_Inr(5) [OF assms(1)] .
  with longest_common_prefix_is_lcp [OF ne] have islcp: "is_lcp (lcp c') (matches c')" by simp
  have "\<forall>s\<in>set (matches c'). prefix text s"
    using compute_matches_Inr(4) [OF assms(1)] by (auto simp: listed_entries_def)
  with islcp have "prefix text (lcp c')" by (simp add: is_lcp_def)
  then have rem: "lcp c' = text @ drop (length text) (lcp c')"
    by (auto simp: prefix_def)
  have "complete env builtins c text 0 =
           (if length (lcp c') > length text
            then \<lparr>cache_after = c', written = [],
                  returned = Inr (Some (drop (length text) (lcp c')))\<rparr>
            else \<lparr>cache_after = c', written = bell, returned = Inr None\<rparr>)"
    using assms ne by (simp add: complete_def refresh_def)
  with islcp rem show ?thesis by blast
qed

theorem complete_multiple_first_witness:
  "compute_matches env_bin shell_builtins ''li'' = Inr cache_li \<and>
   2 \<le> length (matches cache_li) \<and>
   complete env_bin shell_builtins cache_init ''li'' 0 =
     \<lparr>cache_after = cache_li, written = [], returned = Inr (Some ''s'')\<rparr> \<and>
   compute_matches env_bin shell_builtins ''t'' = Inr cache_t \<and>
   2 \<le> length (matches cache_t) \<and>
   complete env_bin shell_builtins cache_li ''t'' 0 =
     \<lparr>cache_after = cache_t, written = bell, returned = Inr None\<rparr>"
proof -
  have li: "compute_matches env_bin shell_builtins ''li'' = Inr cache_li" by code_simp
  have t: "compute_matches env_bin shell_builtins ''t'' = Inr cache_t" by code_simp
  have li2: "2 \<le> length (matches cache_li)" by (simp add: cache_li_def)
  have t2: "2 \<le> length (matches cache_t)" by (simp add: cache_t_def)
  from complete_multiple_first [OF li li2, of cache_init]
  have "complete env_bin shell_builtins cache_init ''li'' 0 =
     \<lparr>cache_after = cache_li, written = [], returned = Inr (Some ''s'')\<rparr>"
    by (simp add: cache_li_def)
  moreover from complete_multiple_first [OF t t2, of cache_li]
  have "complete env_bin shell_builtins cache_li ''t'' 0 =
     \<lparr>cache_after = cache_t, written = bell, returned = Inr None\<rparr>"
    by (simp add: cache_t_def)
  ultimately show ?thesis using li t li2 t2 by blast
qed

text \<open>
  C7. When the candidate list that a request works on has exactly one entry, the request
  returns what that candidate adds to the prefix, followed by a space, whatever the request
  index: \<open>ec\<close> with the sole candidate \<open>echo\<close> gives \<open>ho\<close> and a space.
\<close>

theorem complete_single:
  assumes "refresh env builtins c text state = Inr c'" and "matches c' = [m]"
  shows "complete env builtins c text state =
           \<lparr>cache_after = c', written = [],
            returned = Inr (Some (drop (length text) m @ '' ''))\<rparr>"
  using assms by (simp add: complete_def)

theorem complete_single_witness:
  "refresh env_bin shell_builtins cache_init ''ec'' 0 = Inr cache_ec \<and>
   matches cache_ec = [''echo''] \<and>
   complete env_bin shell_builtins cache_init ''ec'' 0 =
     \<lparr>cache_after = cache_ec, written = [], returned = Inr (Some ''ho '')\<rparr> \<and>
   refresh env_bin shell_builtins cache_ec ''ec'' 1 = Inr cache_ec \<and>
   complete env_bin shell_builtins cache_ec ''ec'' 1 =
     \<lparr>cache_after = cache_ec, written = [], returned = Inr (Some ''ho '')\<rparr>"
proof -
  have r0: "refresh env_bin shell_builtins cache_init ''ec'' 0 = Inr cache_ec" by code_simp
  have r1: "refresh env_bin shell_builtins cache_ec ''ec'' 1 = Inr cache_ec"
    by (simp add: refresh_def cache_ec_def)
  have m: "matches cache_ec = [''echo'']" by (simp add: cache_ec_def)
  from complete_single [OF r0 m] complete_single [OF r1 m] r0 r1 m show ?thesis by simp
qed

text \<open>
  What a request with index 1 or more does on two or more candidates: it raises
  \<open>TypeError\<close> while the index is below the number of candidates, \<open>IndexError\<close> when the
  index equals that number, and returns nothing beyond it.
\<close>

lemma complete_cycle:
  assumes "refresh env builtins c text state = Inr c'" and "2 \<le> length (matches c')"
    and "1 \<le> state"
  shows "complete env builtins c text state =
           \<lparr>cache_after = c', written = [],
            returned = (if state < int (length (matches c')) then Inl TypeError
                        else if state = int (length (matches c')) then Inl IndexError
                        else Inr None)\<rparr>"
  using assms by (auto simp add: complete_def py_index_def)

text \<open>
  C1. With the candidates \<open>top\<close> and \<open>type\<close> for the prefix \<open>t\<close>, request 1 should return
  \<open>top\<close> and request 2 \<open>type\<close>; the code raises \<open>TypeError\<close> at request 1 and \<open>IndexError\<close>
  at request 2. Request 3 returns nothing, as stated.
\<close>

theorem complete_cycle_raises:
  "compute_matches env_bin shell_builtins ''t'' = Inr cache_t \<and>
   returned (complete env_bin shell_builtins cache_t ''t'' 1) = Inl TypeError \<and>
   returned (complete env_bin shell_builtins cache_t ''t'' 2) = Inl IndexError \<and>
   returned (complete env_bin shell_builtins cache_t ''t'' 3) = Inr None"
proof -
  have "compute_matches env_bin shell_builtins ''t'' = Inr cache_t" by code_simp
  moreover have "returned (complete env_bin shell_builtins cache_t ''t'' 1) = Inl TypeError"
    by (simp add: complete_def refresh_def cache_t_def py_index_def)
  moreover have "returned (complete env_bin shell_builtins cache_t ''t'' 2) = Inl IndexError"
    by (simp add: complete_def refresh_def cache_t_def py_index_def)
  moreover have "returned (complete env_bin shell_builtins cache_t ''t'' 3) = Inr None"
    by (simp add: complete_def refresh_def cache_t_def py_index_def)
  ultimately show ?thesis by blast
qed

section \<open>Resolution against completion\<close>

lemma find_in_Some:
  "find_in env program ds = Some full \<Longrightarrow> isfile env full \<and> access_X_OK env full"
  by (induction ds) (auto simp: Let_def split: if_splits)

lemma find_in_resolves:
  "d \<in> set ds \<Longrightarrow> isfile env (os_path_join d program) \<Longrightarrow>
   access_X_OK env (os_path_join d program) \<Longrightarrow> find_in env program ds \<noteq> None"
  by (induction ds) (auto simp: Let_def)

text \<open>
  C10, as stated, fails: with no \<open>PATH\<close> variable the search path is the single empty
  component; \<open>prog\<close> in the working directory resolves, yet the empty component is not a
  directory to list, and \<open>prog\<close> is no candidate for the prefix \<open>pr\<close>.
\<close>

theorem resolvable_not_candidate:
  "find_executable env_cwd ''prog'' = Some ''prog'' \<and> prefix ''pr'' ''prog'' \<and>
   compute_matches env_cwd shell_builtins ''pr'' =
     Inr \<lparr>cache_text = ''pr'', matches = [], lcp = []\<rparr>"
proof -
  have "find_executable env_cwd ''prog'' = Some ''prog''" by code_simp
  moreover have "prefix ''pr'' ''prog''" by simp
  moreover have "compute_matches env_cwd shell_builtins ''pr'' =
     Inr \<lparr>cache_text = ''pr'', matches = [], lcp = []\<rparr>" by code_simp
  ultimately show ?thesis by blast
qed

text \<open>
  C10, amended. Resolution returns only regular files with execute permission; completion
  takes every listed entry with execute permission that starts with the prefix, whatever its
  kind. A name that is an executable regular file in a component of the search path that is
  a directory whose listing succeeds and holds the name, and that starts with the prefix,
  resolves and is a candidate. On \<open>env_bin\<close> the candidates strictly contain the candidates
  that resolve: the subdirectory \<open>sub\<close> is a candidate and does not resolve.
\<close>

theorem resolution_and_candidates:
  assumes "compute_matches env builtins text = Inr c"
  shows "(\<forall>program full. find_executable env program = Some full \<longrightarrow>
            isfile env full \<and> access_X_OK env full) \<and>
         (\<forall>d\<in>set (path_dirs env). \<forall>fs f. isdir env d \<and> listdir env d = Inr fs \<and> f \<in> set fs \<and>
            prefix text f \<and> access_X_OK env (os_path_join d f) \<longrightarrow> f \<in> set (matches c)) \<and>
         (\<forall>d\<in>set (path_dirs env). \<forall>fs program.
            isfile env (os_path_join d program) \<and> access_X_OK env (os_path_join d program) \<and>
            isdir env d \<and> listdir env d = Inr fs \<and> program \<in> set fs \<and> prefix text program \<longrightarrow>
            find_executable env program \<noteq> None \<and> program \<in> set (matches c)) \<and>
         (compute_matches env_bin shell_builtins [] = Inr cache_all \<and>
          {p \<in> set (matches cache_all). find_executable env_bin p \<noteq> None}
             \<subset> set (matches cache_all))"
proof -
  note cm = compute_matches_Inr(4) [OF assms]
  have a: "\<forall>program full. find_executable env program = Some full \<longrightarrow>
            isfile env full \<and> access_X_OK env full"
    by (auto simp: find_executable_def dest: find_in_Some)
  have b: "\<forall>d\<in>set (path_dirs env). \<forall>fs f. isdir env d \<and> listdir env d = Inr fs \<and> f \<in> set fs \<and>
            prefix text f \<and> access_X_OK env (os_path_join d f) \<longrightarrow> f \<in> set (matches c)"
    unfolding cm listed_entries_def by blast
  have c: "\<forall>d\<in>set (path_dirs env). \<forall>fs program.
            isfile env (os_path_join d program) \<and> access_X_OK env (os_path_join d program) \<and>
            isdir env d \<and> listdir env d = Inr fs \<and> program \<in> set fs \<and> prefix text program \<longrightarrow>
            find_executable env program \<noteq> None \<and> program \<in> set (matches c)"
    using b find_in_resolves unfolding find_executable_def by blast
  have d1: "compute_matches env_bin shell_builtins [] = Inr cache_all" by code_simp
  have "find_executable env_bin ''sub'' = None" by code_simp
  moreover have "''sub'' \<in> set (matches cache_all)" by (simp add: cache_all_def)
  ultimately have "{p \<in> set (matches cache_all). find_executable env_bin p \<noteq> None}
             \<subset> set (matches cache_all)" by blast
  with a b c d1 show ?thesis by blast
qed

theorem resolution_and_candidates_witness:
  "compute_matches env_bin shell_builtins ''t'' = Inr cache_t \<and>
   ''/bin'' \<in> set (path_dirs env_bin) \<and>
   isfile env_bin (os_path_join ''/bin'' ''top'') \<and>
   access_X_OK env_bin (os_path_join ''/bin'' ''top'') \<and> isdir env_bin ''/bin'' \<and>
   listdir env_bin ''/bin'' = Inr [''top'', ''ls'', ''sub'', ''list'', ''lisp''] \<and>
   prefix ''t'' ''top'' \<and>
   find_executable env_bin ''top'' = Some ''/bin/top'' \<and>
   isfile env_bin ''/bin/top'' \<and> access_X_OK env_bin ''/bin/top'' \<and>
   ''top'' \<in> set (matches cache_t)"
proof -
  have h: "compute_matches env_bin shell_builtins ''t'' = Inr cache_t" by code_simp
  have p: "''/bin'' \<in> set (path_dirs env_bin)" by code_simp
  have f: "find_executable env_bin ''top'' = Some ''/bin/top''" by code_simp
  have rest: "isfile env_bin (os_path_join ''/bin'' ''top'') \<and>
   access_X_OK env_bin (os_path_join ''/bin'' ''top'') \<and> isdir env_bin ''/bin'' \<and>
   listdir env_bin ''/bin'' = Inr [''top'', ''ls'', ''sub'', ''list'', ''lisp''] \<and>
   prefix ''t'' ''top''"
    by code_simp
  from resolution_and_candidates [OF h] f
  have "isfile env_bin ''/bin/top'' \<and> access_X_OK env_bin ''/bin/top''" by blast
  moreover have "''top'' \<in> set [''top'', ''ls'', ''sub'', ''list'', ''lisp'']" by simp
  with resolution_and_candidates [OF h] p rest
  have "''top'' \<in> set (matches cache_t)" by blast
  ultimately show ?thesis using h p f rest by blast
qed

section \<open>The loop of Shell.run\<close>

text \<open>The loop on three ordinary lines: the output of \<open>echo\<close> and \<open>type\<close>, then end of input.\<close>

lemma run_ordinary_lines:
  "snd (run env_bin world_init [''echo a  b'', ''type exit'', ''type ls'']) = EndOfInput"
  "term_out (fst (run env_bin world_init [''echo a  b'', ''type exit'', ''type ls''])) =
     ''$ a b'' @ newline @ ''$ exit is a shell builtin'' @ newline @
     ''$ ls is /bin/ls'' @ newline @ ''$ '' @ newline"
  by code_simp+

text \<open>
  C9. The line \<open>> f\<close> is not blank and tokenizes to an operator and its target; the command
  vector left by the redirection parser is empty, \<open>handle_exit\<close> reads its first element and
  raises \<open>IndexError\<close>; so does the dispatch of every parsed line with an empty command
  vector, and the loop ends with that exception.
\<close>

theorem empty_command_vector_raises:
  "py_split ''> f'' \<noteq> [] \<and> shlex_split ''> f'' = Inr [''>'', ''f''] \<and>
   parse_redirection [''>'', ''f''] =
     Inr \<lparr>cmd_parts = [], stdout_file = Some ''f'', stdout_mode = ModeW,
          stderr_file = None, stderr_mode = ModeW\<rparr> \<and>
   handle_exit [] = Inl IndexError \<and>
   (\<forall>env w so sm se em.
      dispatch env w \<lparr>cmd_parts = [], stdout_file = so, stdout_mode = sm,
                       stderr_file = se, stderr_mode = em\<rparr> = (w, Inl IndexError)) \<and>
   (\<forall>env w rest. run env w (''> f'' # rest) = (prompt w, Uncaught IndexError))"
proof -
  have a: "py_split ''> f'' \<noteq> []" by code_simp
  have b: "shlex_split ''> f'' = Inr [''>'', ''f'']" by code_simp
  have c: "parse_redirection [''>'', ''f''] =
     Inr \<lparr>cmd_parts = [], stdout_file = Some ''f'', stdout_mode = ModeW,
          stderr_file = None, stderr_mode = ModeW\<rparr>" by code_simp
  have d: "handle_exit [] = Inl IndexError" by (simp add: handle_exit_def py_index_def)
  have e: "dispatch env w \<lparr>cmd_parts = [], stdout_file = so, stdout_mode = sm,
                       stderr_file = se, stderr_mode = em\<rparr> = (w, Inl IndexError)"
    for env w so sm se em
    using d by (simp add: dispatch_def)
  have "run env w (''> f'' # rest) = (prompt w, Uncaught IndexError)" for env w rest
    using a b c e by (simp add: run_line_def)
  with a b c d e show ?thesis by blast
qed

text \<open>
  C4. The line \<open>nosuchcmd 2>> out.txt\<close>, with \<open>out.txt\<close> holding \<open>old\<close>: the name does not
  resolve and the stderr target was given with the append operator, so the message should
  follow the old content. The code opens the target with the mode of the stdout stream,
  which is \<open>"w"\<close> here, and the file holds the message alone.
\<close>

theorem not_found_append_truncates:
  "shlex_split ''nosuchcmd 2>> out.txt'' = Inr [''nosuchcmd'', ''2>>'', ''out.txt''] \<and>
   parse_redirection [''nosuchcmd'', ''2>>'', ''out.txt''] =
     Inr \<lparr>cmd_parts = [''nosuchcmd''], stdout_file = None, stdout_mode = ModeW,
          stderr_file = Some ''out.txt'', stderr_mode = ModeA\<rparr> \<and>
   find_executable env_bin ''nosuchcmd'' = None \<and>
   files world_old ''out.txt'' = Some (''old'' @ newline) \<and>
   files (fst (run env_bin world_old [''nosuchcmd 2>> out.txt''])) ''out.txt'' =
     Some (''nosuchcmd: command not found'' @ newline)"
proof -
  have a: "shlex_split ''nosuchcmd 2>> out.txt'' = Inr [''nosuchcmd'', ''2>>'', ''out.txt'']"
    by code_simp
  have b: "parse_redirection [''nosuchcmd'', ''2>>'', ''out.txt''] =
     Inr \<lparr>cmd_parts = [''nosuchcmd''], stdout_file = None, stdout_mode = ModeW,
          stderr_file = Some ''out.txt'', stderr_mode = ModeA\<rparr>"
    by code_simp
  have c: "find_executable env_bin ''nosuchcmd'' = None" by code_simp
  have d: "files world_old ''out.txt'' = Some (''old'' @ newline)"
    by (simp add: world_old_def)
  have e: "files (fst (run env_bin world_old [''nosuchcmd 2>> out.txt''])) ''out.txt'' =
     Some (''nosuchcmd: command not found'' @ newline)"
    by code_simp
  from a b c d e show ?thesis by blast
qed

text \<open>The tokenizer raises no exception other than \<open>ValueError\<close>.\<close>

lemma emit_error: "emit tok r = Inl e \<Longrightarrow> r = Inl e"
  by (cases r) (auto simp: emit_def)

lemma read_tokens_error:
  "read_tokens st es quoted token cs = Inl e \<Longrightarrow> e = ValueError"
proof (induction st es quoted token cs rule: read_tokens.induct)
  case (5 es quoted token c cs)
  then show ?case by (auto split: if_splits dest: emit_error)
next
  case (8 es quoted token c cs)
  then show ?case by (auto split: if_splits dest: emit_error)
qed (auto split: if_splits simp: Let_def)

text \<open>
  C2, as stated, fails: after a line that ends in a redirection operator, and after a line
  with an open quotation, the loop is left with the exception; the next line is not read
  and nothing but the prompt has been written.
\<close>

theorem malformed_line_stops_run:
  "run env_bin world_init [''echo >'', ''echo hi''] = (prompt world_init, Uncaught IndexError) \<and>
   run env_bin world_init [line_open_quote, ''echo hi''] =
     (prompt world_init, Uncaught ValueError)"
proof -
  have a: "py_split ''echo >'' \<noteq> []" by code_simp
  have b: "shlex_split ''echo >'' = Inr [''echo'', ''>'']" by code_simp
  have c: "parse_redirection [''echo'', ''>''] = Inl IndexError" by code_simp
  have a': "py_split line_open_quote \<noteq> []" by code_simp
  have b': "shlex_split line_open_quote = Inl ValueError" by code_simp
  show ?thesis using a b c a' b' by (simp add: run_line_def)
qed

text \<open>
  C2, amended. For every line that is not blank: if the tokenizer raises (an open quotation
  or a trailing escape character raise \<open>ValueError\<close>), or if the words end in a redirection
  operator with no target after well-formed items (the parser raises \<open>IndexError\<close>), then
  no message is written, the exception leaves \<open>Shell.run\<close> and no later line is read.
\<close>

theorem malformed_line_ends_run:
  assumes "py_split command \<noteq> []"
  shows "(shlex_split command = Inl e \<longrightarrow>
            e = ValueError \<and> run env w (command # rest) = (prompt w, Uncaught ValueError)) \<and>
         (shlex_split command = Inr (concat (map tokens_of its) @ [opr]) \<and>
            (\<forall>it\<in>set its. wf_item it) \<and> is_operator opr \<longrightarrow>
            run env w (command # rest) = (prompt w, Uncaught IndexError))"
proof -
  have "e = ValueError \<and> run env w (command # rest) = (prompt w, Uncaught ValueError)"
    if "shlex_split command = Inl e"
  proof -
    from that have "e = ValueError" unfolding shlex_split_def by (rule read_tokens_error)
    with that assms show ?thesis by (simp add: run_line_def)
  qed
  moreover have "run env w (command # rest) = (prompt w, Uncaught IndexError)"
    if "shlex_split command = Inr (concat (map tokens_of its) @ [opr])"
      and "\<forall>it\<in>set its. wf_item it" and "is_operator opr"
    using that assms by (simp add: run_line_def parse_redirection_dangling)
  ultimately show ?thesis by blast
qed

theorem malformed_line_ends_run_witness:
  "py_split ''echo >'' \<noteq> [] \<and>
   shlex_split ''echo >'' = Inr (concat (map tokens_of [Word ''echo'']) @ [''>'']) \<and>
   wf_item (Word ''echo'') \<and> is_operator ''>'' \<and>
   run env_bin world_init [''echo >'', ''echo hi''] = (prompt world_init, Uncaught IndexError) \<and>
   py_split line_open_quote \<noteq> [] \<and> shlex_split line_open_quote = Inl ValueError \<and>
   run env_bin world_init [line_open_quote, ''echo hi''] =
     (prompt world_init, Uncaught ValueError)"
proof -
  have a: "py_split ''echo >'' \<noteq> []" by code_simp
  have b: "shlex_split ''echo >'' = Inr (concat (map tokens_of [Word ''echo'']) @ [''>''])"
    by code_simp
  have c: "(\<forall>it\<in>set [Word ''echo'']. wf_item it) \<and> is_operator ''>''"
    by (simp add: is_operator_def is_stdout_op_def is_stderr_op_def)
  then have c': "wf_item (Word ''echo'') \<and> is_operator ''>''" by simp
  have a': "py_split line_open_quote \<noteq> []" by code_simp
  have b': "shlex_split line_open_quote = Inl ValueError" by code_simp
  from malformed_line_ends_run
         [where command = "''echo >''" and its = "[Word ''echo'']" and opr = "''>''"
            and env = env_bin and w = world_init and rest = "[''echo hi'']", OF a]
    b c
  have "run env_bin world_init [''echo >'', ''echo hi''] = (prompt world_init, Uncaught IndexError)"
    by blast
  moreover from malformed_line_ends_run
         [where command = line_open_quote and e = ValueError
            and env = env_bin and w = world_init and rest = "[''echo hi'']", OF a'] b'
  have "run env_bin world_init [line_open_quote, ''echo hi''] =
     (prompt world_init, Uncaught ValueError)" by blast
  ultimately show ?thesis using a b c' a' b' by blast
qed

text \<open>\<open>open_for_write\<close> fails exactly when \<open>open_exn\<close> names an exception.\<close>

lemma open_for_write_exn:
  "open_for_write env w f m =
     (case open_exn env f of
        Some e \<Rightarrow> (w, Inl e)
      | None \<Rightarrow>
          (w\<lparr>files := (files w)(f \<mapsto>
               (case m of ModeW \<Rightarrow> []
                | ModeA \<Rightarrow> (case files w f of None \<Rightarrow> [] | Some old \<Rightarrow> old)))\<rparr>,
           Inr f))"
  by (simp add: open_for_write_def open_exn_def Let_def split: option.splits)

lemma open_if_given_none: "given t = [] \<Longrightarrow> open_if_given env w t m = (w, Inr None)"
  by (cases t) (auto simp: given_def open_if_given_def split: if_splits)

lemma open_if_given_fails:
  "given t = f # fs \<Longrightarrow> open_exn env f = Some e \<Longrightarrow> open_if_given env w t m = (w, Inl e)"
  by (cases t) (auto simp: given_def open_if_given_def open_for_write_exn split: if_splits)

lemma open_if_given_opens:
  "given t = f # fs \<Longrightarrow> open_exn env f = None \<Longrightarrow>
   \<exists>w'. open_if_given env w t m = (w', Inr (Some f)) \<and>
        term_out w' = term_out w \<and> term_err w' = term_err w"
  by (cases t) (auto simp: given_def open_if_given_def open_for_write_exn split: if_splits)

lemma given_cases: "given t = [] \<or> (\<exists>f. given t = [f])"
  by (cases t) (auto simp: given_def)

lemma first_failure_one:
  assumes "find (\<lambda>f. open_exn env f \<noteq> None) (given a) = Some f"
    and "open_exn env f = Some e"
  shows "open_if_given env w a ma = (w, Inl e)"
proof -
  from assms(1) given_cases [of a] have "given a = [f]" by (auto split: if_splits)
  with assms(2) show ?thesis by (simp add: open_if_given_fails)
qed

text \<open>
  Two targets opened one after the other: the first failure is the one raised, and an
  opening that succeeds writes nothing to the terminal.
\<close>

lemma first_failure_two:
  assumes "find (\<lambda>f. open_exn env f \<noteq> None) (given a @ given b) = Some f"
    and "open_exn env f = Some e"
  shows "(given a \<noteq> [] \<and> open_if_given env w a ma = (w, Inl e)) \<or>
         (\<exists>w1 h. open_if_given env w a ma = (w1, Inr h) \<and> (h = None \<longleftrightarrow> given a = []) \<and>
            (h = None \<longrightarrow> w1 = w) \<and>
            term_out w1 = term_out w \<and> term_err w1 = term_err w \<and>
            (\<forall>w2. open_if_given env w2 b mb = (w2, Inl e)))"
proof -
  from given_cases [of a] show ?thesis
  proof
    assume ga: "given a = []"
    with assms(1) have "find (\<lambda>f. open_exn env f \<noteq> None) (given b) = Some f" by simp
    from first_failure_one [OF this assms(2)]
    have "\<forall>w2. open_if_given env w2 b mb = (w2, Inl e)" by blast
    moreover from ga have "open_if_given env w a ma = (w, Inr None)"
      by (rule open_if_given_none)
    ultimately show ?thesis using ga by blast
  next
    assume "\<exists>fa. given a = [fa]"
    then obtain fa where ga: "given a = [fa]" by blast
    show ?thesis
    proof (cases "open_exn env fa")
      case (Some e')
      with assms ga have "fa = f" by simp
      with ga assms(2) show ?thesis by (simp add: open_if_given_fails)
    next
      case None
      with assms(1) ga have "find (\<lambda>f. open_exn env f \<noteq> None) (given b) = Some f" by simp
      from first_failure_one [OF this assms(2)]
      have "\<forall>w2. open_if_given env w2 b mb = (w2, Inl e)" by blast
      moreover from open_if_given_opens [OF ga None] obtain w1
        where "open_if_given env w a ma = (w1, Inr (Some fa))"
          "term_out w1 = term_out w" "term_err w1 = term_err w" by blast
      ultimately show ?thesis using ga by auto
    qed
  qed
qed

text \<open>
  The dispatch of a parsed line raises the exception of the first target that cannot be
  opened: no handler catches it. Until then the error stream has received nothing and the
  standard output nothing but what \<open>echo\<close> printed.
\<close>

lemma dispatch_open_failure:
  assumes "find (\<lambda>f. open_exn env f \<noteq> None) (targets_opened env r) = Some f"
    and "open_exn env f = Some e"
  shows "\<exists>w'. dispatch env w r = (w', Inl e) \<and> term_err w' = term_err w \<and>
              term_out w' = term_out w @ echo_printed r"
proof (cases "cmd_parts r")
  case Nil
  with assms(1) show ?thesis by (simp add: targets_opened_def)
next
  case (Cons p0 args)
  then have p0: "py_index (cmd_parts r) 0 = Inr p0" by (simp add: py_index_def)
  show ?thesis
  proof (cases "p0 = ''exit''")
    case True
    with assms(1) Cons show ?thesis by (simp add: targets_opened_def)
  next
    case nexit: False
    then have ex: "handle_exit (cmd_parts r) = Inr False" using p0 by (simp add: handle_exit_def)
    show ?thesis
    proof (cases "p0 = ''echo''")
      case True
      with assms(1) Cons nexit
      have "find (\<lambda>f. open_exn env f \<noteq> None) (given (stdout_file r) @ given (stderr_file r)) = Some f"
        by (simp add: targets_opened_def)
      from first_failure_two [OF this assms(2), of w "stdout_mode r" "stderr_mode r"]
      have "\<exists>w'. handle_echo env w (cmd_parts r) (stdout_file r) (stdout_mode r)
                  (stderr_file r) (stderr_mode r) = (w', Inl e) \<and> term_err w' = term_err w \<and>
              term_out w' = term_out w @ echo_printed r"
        using p0 True Cons
        by (auto simp: handle_echo_def write_output_def echo_printed_def print_out_def
            file_write_def split: option.splits)
      with ex show ?thesis by (auto simp: dispatch_def)
    next
      case necho: False
      then have ec: "handle_echo env w (cmd_parts r) (stdout_file r) (stdout_mode r)
                  (stderr_file r) (stderr_mode r) = (w, Inr False)"
        using p0 by (simp add: handle_echo_def)
      from necho Cons have np: "echo_printed r = []" by (simp add: echo_printed_def)
      show ?thesis
      proof (cases "p0 = ''type'' \<and> args \<noteq> []")
        case True
        with assms(1) Cons nexit necho
        have "find (\<lambda>f. open_exn env f \<noteq> None) (given (stdout_file r)) = Some f"
          by (simp add: targets_opened_def)
        from first_failure_one [OF this assms(2), of w "stdout_mode r"]
        have "handle_type env shell_builtins w (cmd_parts r) (stdout_file r) (stdout_mode r)
                = (w, Inl e)"
          using p0 True Cons
          by (simp add: handle_type_def write_output_def Let_def)
        with ex ec np show ?thesis by (auto simp: dispatch_def)
      next
        case ntype: False
        then have ty: "handle_type env shell_builtins w (cmd_parts r) (stdout_file r) (stdout_mode r)
                = (w, Inr False)"
          using p0 Cons by (cases args) (auto simp add: handle_type_def)
        have "\<exists>w'. run_external env w (cmd_parts r) (stdout_file r) (stderr_file r)
                      (stdout_mode r) (stderr_mode r) = (w', Inl e) \<and>
                    term_err w' = term_err w \<and> term_out w' = term_out w"
        proof (cases "find_executable env p0 = None \<or> find_executable env p0 = Some []")
          case True
          with assms(1) Cons nexit necho ntype
          have "find (\<lambda>f. open_exn env f \<noteq> None) (given (stderr_file r)) = Some f"
            by (auto simp add: targets_opened_def)
          from first_failure_one [OF this assms(2), of w "stdout_mode r"]
          show ?thesis using p0 True
            by (auto simp: run_external_def command_not_found_def)
        next
          case False
          then obtain full where full: "find_executable env p0 = Some full" "full \<noteq> []"
            by auto
          with assms(1) Cons nexit necho ntype
          have "find (\<lambda>f. open_exn env f \<noteq> None) (given (stdout_file r) @ given (stderr_file r)) = Some f"
            by (auto simp add: targets_opened_def)
          from first_failure_two [OF this assms(2), of w "stdout_mode r" "stderr_mode r"]
          show ?thesis using p0 full
            by (auto simp: run_external_def spawn_def)
        qed
        with ex ec ty np show ?thesis by (auto simp: dispatch_def)
      qed
    qed
  qed
qed

text \<open>
  C3, as stated, fails: \<open>/locked/f\<close> cannot be opened, the loop is left with
  \<open>PermissionError\<close> after the first line, nothing is reported and the second line is not
  read.
\<close>

theorem open_failure_stops_run:
  "open_err env_bin ''/locked/f'' = Some PermissionError \<and>
   snd (run env_bin world_init [''echo hi > /locked/f'', ''echo after'']) =
     Uncaught PermissionError \<and>
   term_out (fst (run env_bin world_init [''echo hi > /locked/f'', ''echo after''])) = ''$ '' \<and>
   term_err (fst (run env_bin world_init [''echo hi > /locked/f'', ''echo after''])) = []"
proof -
  have "open_err env_bin ''/locked/f'' = Some PermissionError" by code_simp
  moreover have "snd (run env_bin world_init [''echo hi > /locked/f'', ''echo after'']) =
     Uncaught PermissionError" by code_simp
  moreover have
    "term_out (fst (run env_bin world_init [''echo hi > /locked/f'', ''echo after''])) = ''$ ''"
    by code_simp
  moreover have
    "term_err (fst (run env_bin world_init [''echo hi > /locked/f'', ''echo after''])) = []"
    by code_simp
  ultimately show ?thesis by blast
qed

text \<open>
  C3, amended. For every line that is not blank and parses: if one of the redirection
  targets that its dispatch opens cannot be opened, the exception of the first such target
  leaves the handler and \<open>Shell.run\<close>, and the loop ends with it whatever lines follow. The
  shell reports nothing: the error stream receives nothing, and the standard output
  receives the prompt and, from \<open>echo\<close> without a stdout target, the output it printed
  before it opened its stderr target.
\<close>

theorem open_failure_ends_run:
  assumes "py_split command \<noteq> []" and "shlex_split command = Inr parts"
    and "parse_redirection parts = Inr r"
    and "find (\<lambda>f. open_exn env f \<noteq> None) (targets_opened env r) = Some f"
    and "open_exn env f = Some e"
  shows "\<exists>w'. (\<forall>rest. run env w (command # rest) = (w', Uncaught e)) \<and>
              term_err w' = term_err w \<and>
              term_out w' = term_out w @ ''$ '' @ echo_printed r"
proof -
  from dispatch_open_failure [OF assms(4,5), of "prompt w"] obtain w'
    where d: "dispatch env (prompt w) r = (w', Inl e)"
      and t: "term_err w' = term_err (prompt w)"
        "term_out w' = term_out (prompt w) @ echo_printed r" by blast
  from d assms(1-3) have "\<forall>rest. run env w (command # rest) = (w', Uncaught e)"
    by (simp add: run_line_def)
  with t show ?thesis by (auto simp: prompt_def)
qed

theorem open_failure_ends_run_witness:
  "py_split ''echo hi > /locked/f'' \<noteq> [] \<and>
   shlex_split ''echo hi > /locked/f'' = Inr [''echo'', ''hi'', ''>'', ''/locked/f''] \<and>
   parse_redirection [''echo'', ''hi'', ''>'', ''/locked/f''] =
     Inr \<lparr>cmd_parts = [''echo'', ''hi''], stdout_file = Some ''/locked/f'',
          stdout_mode = ModeW, stderr_file = None, stderr_mode = ModeW\<rparr> \<and>
   find (\<lambda>f. open_exn env_bin f \<noteq> None)
     (targets_opened env_bin
        \<lparr>cmd_parts = [''echo'', ''hi''], stdout_file = Some ''/locked/f'',
         stdout_mode = ModeW, stderr_file = None, stderr_mode = ModeW\<rparr>) = Some ''/locked/f'' \<and>
   open_exn env_bin ''/locked/f'' = Some PermissionError \<and>
   (\<exists>w'. (\<forall>rest. run env_bin world_init (''echo hi > /locked/f'' # rest) =
             (w', Uncaught PermissionError)) \<and>
         term_err w' = [] \<and> term_out w' = ''$ '') \<and>
   py_split ''echo hi 2> /locked/f'' \<noteq> [] \<and>
   shlex_split ''echo hi 2> /locked/f'' = Inr [''echo'', ''hi'', ''2>'', ''/locked/f''] \<and>
   parse_redirection [''echo'', ''hi'', ''2>'', ''/locked/f''] =
     Inr \<lparr>cmd_parts = [''echo'', ''hi''], stdout_file = None,
          stdout_mode = ModeW, stderr_file = Some ''/locked/f'', stderr_mode = ModeW\<rparr> \<and>
   find (\<lambda>f. open_exn env_bin f \<noteq> None)
     (targets_opened env_bin
        \<lparr>cmd_parts = [''echo'', ''hi''], stdout_file = None,
         stdout_mode = ModeW, stderr_file = Some ''/locked/f'', stderr_mode = ModeW\<rparr>) =
     Some ''/locked/f'' \<and>
   (\<exists>w'. (\<forall>rest. run env_bin world_init (''echo hi 2> /locked/f'' # rest) =
             (w', Uncaught PermissionError)) \<and>
         term_err w' = [] \<and> term_out w' = ''$ hi'' @ newline)"
proof -
  let ?r1 = "\<lparr>cmd_parts = [''echo'', ''hi''], stdout_file = Some ''/locked/f'',
         stdout_mode = ModeW, stderr_file = None, stderr_mode = ModeW\<rparr>"
  let ?r2 = "\<lparr>cmd_parts = [''echo'', ''hi''], stdout_file = None,
         stdout_mode = ModeW, stderr_file = Some ''/locked/f'', stderr_mode = ModeW\<rparr>"
  have a1: "py_split ''echo hi > /locked/f'' \<noteq> []" by code_simp
  have b1: "shlex_split ''echo hi > /locked/f'' = Inr [''echo'', ''hi'', ''>'', ''/locked/f'']"
    by code_simp
  have c1: "parse_redirection [''echo'', ''hi'', ''>'', ''/locked/f''] = Inr ?r1"
    by code_simp
  have a2: "py_split ''echo hi 2> /locked/f'' \<noteq> []" by code_simp
  have b2: "shlex_split ''echo hi 2> /locked/f'' = Inr [''echo'', ''hi'', ''2>'', ''/locked/f'']"
    by code_simp
  have c2: "parse_redirection [''echo'', ''hi'', ''2>'', ''/locked/f''] = Inr ?r2"
    by code_simp
  have d: "open_exn env_bin ''/locked/f'' = Some PermissionError" by code_simp
  have t1: "targets_opened env_bin ?r1 = [''/locked/f'']"
    by (simp add: targets_opened_def given_def)
  have t2: "targets_opened env_bin ?r2 = [''/locked/f'']"
    by (simp add: targets_opened_def given_def)
  have f1: "find (\<lambda>f. open_exn env_bin f \<noteq> None) (targets_opened env_bin ?r1) =
              Some ''/locked/f''"
    unfolding t1 using d by simp
  have f2: "find (\<lambda>f. open_exn env_bin f \<noteq> None) (targets_opened env_bin ?r2) =
              Some ''/locked/f''"
    unfolding t2 using d by simp
  have p1: "echo_printed ?r1 = []" by (simp add: echo_printed_def given_def)
  have p2: "echo_printed ?r2 = ''hi'' @ newline" by (simp add: echo_printed_def given_def)
  have w0: "term_err world_init = []" "term_out world_init = []"
    by (simp_all add: world_init_def)
  from open_failure_ends_run [OF a1 b1 c1 f1 d, of world_init]
  have r1: "\<exists>w'. (\<forall>rest. run env_bin world_init (''echo hi > /locked/f'' # rest) =
             (w', Uncaught PermissionError)) \<and>
         term_err w' = [] \<and> term_out w' = ''$ ''"
    unfolding p1 w0 by simp
  from open_failure_ends_run [OF a2 b2 c2 f2 d, of world_init]
  have r2: "\<exists>w'. (\<forall>rest. run env_bin world_init (''echo hi 2> /locked/f'' # rest) =
             (w', Uncaught PermissionError)) \<and>
         term_err w' = [] \<and> term_out w' = ''$ hi'' @ newline"
    unfolding p2 w0 by simp
  from a1 b1 c1 f1 d r1 a2 b2 c2 f2 r2 show ?thesis by blast
qed

end
